theory Spec2Isabelle
  imports Main "HOL-Library.Signed_Division"
begin

section \<open>The routing unit of a garnet router (RoutingUnit.cc)\<close>

text \<open>
  A shallow embedding of \<^verbatim>\<open>gem5::ruby::garnet::RoutingUnit\<close>. The class is a record of
  its data members; a member function takes the record (and returns it where it writes to
  it). Every way a call can end other than by returning a value is a value of \<open>error\<close>.

  A value of type C \<^verbatim>\<open>int\<close> is an \<open>int\<close>. C's \<^verbatim>\<open>/\<close> and \<^verbatim>\<open>%\<close> truncate towards zero:
  they are \<open>sdiv\<close> and \<open>smod\<close>, and a zero divisor is the error \<open>DivisionByZero\<close>. In the
  torus routers the dimensions alone can take a product or a sum outside the range of
  \<^verbatim>\<open>int\<close>; there every arithmetic result is checked, and one outside the range is the error
  \<open>SignedOverflow\<close>. Elsewhere the quantities (router ids and coordinates on the mesh, channel
  numbers and counts, scores) stay inside the range for the inputs the properties are about.
\<close>

subsection \<open>Errors\<close>

datatype error =
    Fatal                 \<comment> \<open>\<^verbatim>\<open>fatal(...)\<close>: the simulation is aborted\<close>
  | Panic                 \<comment> \<open>\<^verbatim>\<open>panic(...)\<close>\<close>
  | AssertionFailed       \<comment> \<open>a failed \<^verbatim>\<open>assert(...)\<close>\<close>
  | OutOfBounds           \<comment> \<open>\<^verbatim>\<open>operator[]\<close> of a vector outside its size (undefined behaviour)\<close>
  | OutOfRange            \<comment> \<open>\<^verbatim>\<open>vector::at\<close> outside its size (\<^verbatim>\<open>std::out_of_range\<close>)\<close>
  | DivisionByZero        \<comment> \<open>\<^verbatim>\<open>/\<close> or \<^verbatim>\<open>%\<close> by zero (undefined behaviour)\<close>
  | SignedOverflow        \<comment> \<open>an \<^verbatim>\<open>int\<close> result outside the range of \<^verbatim>\<open>int\<close> (undefined behaviour)\<close>

text \<open>\<^verbatim>\<open>v[i]\<close> on a \<^verbatim>\<open>std::vector\<close> with an \<^verbatim>\<open>int\<close> index.\<close>

definition vec_index :: "'a list \<Rightarrow> int \<Rightarrow> error + 'a" where
  "vec_index xs i = (if 0 \<le> i \<and> i < int (length xs) then Inr (xs ! nat i) else Inl OutOfBounds)"

text \<open>\<^verbatim>\<open>v.at(i)\<close> on a \<^verbatim>\<open>std::vector\<close>.\<close>

definition vec_at :: "'a list \<Rightarrow> int \<Rightarrow> error + 'a" where
  "vec_at xs i = (if 0 \<le> i \<and> i < int (length xs) then Inr (xs ! nat i) else Inl OutOfRange)"

subsection \<open>Arithmetic on \<^verbatim>\<open>int\<close>\<close>

text \<open>The range of a 32-bit \<^verbatim>\<open>int\<close>.\<close>

definition INT_MAX :: int where
  "INT_MAX = 2147483647"

definition INT_MIN :: int where
  "INT_MIN = - 2147483648"

definition int_range :: "int \<Rightarrow> bool" where
  "int_range v \<longleftrightarrow> INT_MIN \<le> v \<and> v \<le> INT_MAX"

text \<open>
  The result of a sum, a difference or a product of type \<^verbatim>\<open>int\<close>, given its mathematical
  value; of \<^verbatim>\<open>a / b\<close>; and of \<^verbatim>\<open>a % b\<close>, which is undefined where \<^verbatim>\<open>a / b\<close> is.
\<close>

definition c_int :: "int \<Rightarrow> error + int" where
  "c_int v = (if int_range v then Inr v else Inl SignedOverflow)"

definition c_div :: "int \<Rightarrow> int \<Rightarrow> error + int" where
  "c_div a b = (if b = 0 then Inl DivisionByZero else c_int (a sdiv b))"

definition c_mod :: "int \<Rightarrow> int \<Rightarrow> error + int" where
  "c_mod a b =
     (if b = 0 then Inl DivisionByZero
      else if int_range (a sdiv b) then Inr (a smod b)
      else Inl SignedOverflow)"

text \<open>One statement after another: the first error ends the call.\<close>

definition and_then :: "error + 'a \<Rightarrow> ('a \<Rightarrow> error + 'b) \<Rightarrow> error + 'b" where
  "and_then m f = (case m of Inl e \<Rightarrow> Inl e | Inr v \<Rightarrow> f v)"

subsection \<open>Collaborators\<close>

text \<open>
  Modelled from the spec: \<^verbatim>\<open>NetDest\<close> and its \<^verbatim>\<open>intersectionIsNotEmpty\<close> are declared
  outside the source files at hand. The spec calls a destination set "a bit-set of endpoint
  identifiers a packet may legitimately be delivered to, used to test candidate-link
  eligibility": a set of endpoint numbers, and the test is that two of them share a member.
\<close>

type_synonym NetDest = "nat set"

definition intersectionIsNotEmpty :: "NetDest \<Rightarrow> NetDest \<Rightarrow> bool" where
  "intersectionIsNotEmpty a b \<longleftrightarrow> a \<inter> b \<noteq> {}"

type_synonym PortDirection = string

text \<open>
  The selector \<^verbatim>\<open>RoutingAlgorithm\<close>, with the five values \<^verbatim>\<open>outportCompute\<close> names in its
  \<^verbatim>\<open>switch\<close> (\<^verbatim>\<open>TABLE_\<close>, \<^verbatim>\<open>XY_\<close>, ..., written without the final underscore);
  \<open>OTHER\<close> stands for every value that reaches \<^verbatim>\<open>default\<close>.
\<close>

datatype RoutingAlgorithm = TABLE | XY | CUSTOM | TORUS3D | TORUS3D_ADAPTIVE | OTHER

text \<open>
  An output unit, as far as the routing unit reads it: \<^verbatim>\<open>getVcsPerVnet()\<close> and
  \<^verbatim>\<open>is_vc_idle(vc_id, curTick())\<close> at the time of the routing decision.
\<close>

record OutputUnit =
  getVcsPerVnet :: int
  is_vc_idle :: "int \<Rightarrow> bool"

text \<open>
  Modelled from the spec: \<^verbatim>\<open>Router\<close>, \<^verbatim>\<open>GarnetNetwork\<close> and \<^verbatim>\<open>OutputUnit\<close> are declared
  outside the source files at hand; the spec lists what the routing unit consumes from them
  (\<open>getId\<close>, \<open>getRoutingAlgorithmSelector\<close>, \<open>isTrafficClassOrdered\<close>, \<open>getMeshDimensions\<close>,
  \<open>getTorusDimensions\<close>, \<open>getTotalChannelCount\<close>, \<open>getOutputPort\<close>, \<open>getChannelsPerClass\<close>,
  \<open>isChannelIdle\<close>). The record holds the router and, through \<^verbatim>\<open>get_net_ptr()\<close>, the
  network, under the names the source calls. \<^verbatim>\<open>getOutputUnit(i)\<close> indexes the router's
  vector of output units; an index outside it is \<open>OutOfBounds\<close>.
\<close>

record Router =
  get_id :: int
  get_num_vcs :: int
  m_output_unit :: "OutputUnit list"
  getRoutingAlgorithm :: RoutingAlgorithm
  isVNetOrdered :: "int \<Rightarrow> bool"
  getNumRows :: int
  getNumCols :: int
  getTorusX :: int
  getTorusY :: int
  getTorusZ :: int

definition getOutputUnit :: "Router \<Rightarrow> int \<Rightarrow> error + OutputUnit" where
  "getOutputUnit rt outport_idx = vec_index (m_output_unit rt) outport_idx"

text \<open>The fields of \<^verbatim>\<open>RouteInfo\<close> that the routing unit reads.\<close>

record RouteInfo =
  vnet :: int
  net_dest :: NetDest
  dest_router :: int

subsection \<open>The routing unit's state\<close>

record RoutingUnit =
  m_router :: Router
  m_routing_table :: "NetDest list list"
  m_weight_table :: "int list"
  m_inports_dirn2idx :: "PortDirection \<rightharpoonup> int"
  m_inports_idx2dirn :: "int \<rightharpoonup> PortDirection"
  m_outports_idx2dirn :: "int \<rightharpoonup> PortDirection"
  m_outports_dirn2idx :: "PortDirection \<rightharpoonup> int"

text \<open>The constructor: both tables are cleared, the direction maps start empty.\<close>

definition RoutingUnit_new :: "Router \<Rightarrow> RoutingUnit" where
  "RoutingUnit_new router =
     \<lparr> m_router = router, m_routing_table = [], m_weight_table = [],
       m_inports_dirn2idx = Map.empty, m_inports_idx2dirn = Map.empty,
       m_outports_idx2dirn = Map.empty, m_outports_dirn2idx = Map.empty \<rparr>"

subsection \<open>The routing table\<close>

text \<open>\<^verbatim>\<open>std::vector::resize(n)\<close> when \<open>n\<close> is larger than the size: new elements are empty.\<close>

definition resize_table :: "NetDest list list \<Rightarrow> nat \<Rightarrow> NetDest list list" where
  "resize_table t n = t @ replicate (n - length t) []"

text \<open>
  The loop of \<^verbatim>\<open>addRoute\<close>: for \<open>v\<close> from 0 below the size of the entry,
  \<^verbatim>\<open>m_routing_table[v].push_back(routing_table_entry[v])\<close>.
\<close>

fun addRoute_loop :: "NetDest list \<Rightarrow> nat list \<Rightarrow> NetDest list list \<Rightarrow> NetDest list list" where
  "addRoute_loop routing_table_entry [] t = t"
| "addRoute_loop routing_table_entry (v # vs) t =
     addRoute_loop routing_table_entry vs (t[v := t ! v @ [routing_table_entry ! v]])"

definition addRoute :: "RoutingUnit \<Rightarrow> NetDest list \<Rightarrow> RoutingUnit" where
  "addRoute ru routing_table_entry =
     (let t = (if length routing_table_entry > length (m_routing_table ru)
               then resize_table (m_routing_table ru) (length routing_table_entry)
               else m_routing_table ru)
      in ru\<lparr>m_routing_table :=
              addRoute_loop routing_table_entry [0..<length routing_table_entry] t\<rparr>)"

definition addWeight :: "RoutingUnit \<Rightarrow> int \<Rightarrow> RoutingUnit" where
  "addWeight ru link_weight = ru\<lparr>m_weight_table := m_weight_table ru @ [link_weight]\<rparr>"

definition supportsVnet :: "int \<Rightarrow> int list \<Rightarrow> bool" where
  "supportsVnet vn sVnets =
     (if length sVnets = 0 then True
      else if vn \<in> set sVnets then True
      else False)"

text \<open>
  The first loop of \<^verbatim>\<open>lookupRoutingTable\<close>, over the links still to visit: the minimum
  weight among the links whose destination set meets the message's.
\<close>

fun min_weight_loop ::
  "NetDest list \<Rightarrow> int list \<Rightarrow> NetDest \<Rightarrow> nat list \<Rightarrow> int \<Rightarrow> error + int" where
  "min_weight_loop row weights msg_destination [] min_weight = Inr min_weight"
| "min_weight_loop row weights msg_destination (link # links) min_weight =
     (case vec_index row (int link) of
        Inl e \<Rightarrow> Inl e
      | Inr entry \<Rightarrow>
          if intersectionIsNotEmpty msg_destination entry then
            (case vec_index weights (int link) of
               Inl e \<Rightarrow> Inl e
             | Inr w \<Rightarrow>
                 min_weight_loop row weights msg_destination links
                   (if w \<le> min_weight then w else min_weight))
          else min_weight_loop row weights msg_destination links min_weight)"

text \<open>The second loop: the links of that minimum weight, in the order of their index.\<close>

fun candidates_loop ::
  "NetDest list \<Rightarrow> int list \<Rightarrow> NetDest \<Rightarrow> int \<Rightarrow> nat list \<Rightarrow> int list \<Rightarrow> error + int list" where
  "candidates_loop row weights msg_destination min_weight [] output_link_candidates =
     Inr output_link_candidates"
| "candidates_loop row weights msg_destination min_weight (link # links) output_link_candidates =
     (case vec_index row (int link) of
        Inl e \<Rightarrow> Inl e
      | Inr entry \<Rightarrow>
          if intersectionIsNotEmpty msg_destination entry then
            (case vec_index weights (int link) of
               Inl e \<Rightarrow> Inl e
             | Inr w \<Rightarrow>
                 candidates_loop row weights msg_destination min_weight links
                   (if w = min_weight then output_link_candidates @ [int link]
                    else output_link_candidates))
          else candidates_loop row weights msg_destination min_weight links
                 output_link_candidates)"

text \<open>
  \<^verbatim>\<open>lookupRoutingTable(vnet, msg_destination)\<close>. The macro \<^verbatim>\<open>INFINITE_\<close> is defined outside
  the source files at hand and is the first parameter \<open>INFINITE\<close>; \<open>r\<close> is the value that
  \<^verbatim>\<open>rand()\<close> returns if it is called (a non-negative number).
\<close>

definition lookupRoutingTable ::
  "int \<Rightarrow> RoutingUnit \<Rightarrow> int \<Rightarrow> NetDest \<Rightarrow> nat \<Rightarrow> error + int" where
  "lookupRoutingTable INFINITE ru vn msg_destination r =
     (case vec_index (m_routing_table ru) vn of
        Inl e \<Rightarrow> Inl e
      | Inr row \<Rightarrow>
         (case min_weight_loop row (m_weight_table ru) msg_destination [0..<length row] INFINITE of
            Inl e \<Rightarrow> Inl e
          | Inr min_weight \<Rightarrow>
             (case candidates_loop row (m_weight_table ru) msg_destination min_weight
                     [0..<length row] [] of
                Inl e \<Rightarrow> Inl e
              | Inr output_link_candidates \<Rightarrow>
                  if length output_link_candidates = 0 then Inl Fatal
                  else
                    let num_candidates = int (length output_link_candidates);
                        candidate = (if \<not> isVNetOrdered (m_router ru) vn
                                     then int r smod num_candidates else 0)
                    in vec_at output_link_candidates candidate)))"

subsection \<open>The direction registry\<close>

definition addInDirection :: "RoutingUnit \<Rightarrow> PortDirection \<Rightarrow> int \<Rightarrow> RoutingUnit" where
  "addInDirection ru inport_dirn inport_idx =
     ru\<lparr>m_inports_dirn2idx := (m_inports_dirn2idx ru)(inport_dirn \<mapsto> inport_idx),
        m_inports_idx2dirn := (m_inports_idx2dirn ru)(inport_idx \<mapsto> inport_dirn)\<rparr>"

definition addOutDirection :: "RoutingUnit \<Rightarrow> PortDirection \<Rightarrow> int \<Rightarrow> RoutingUnit" where
  "addOutDirection ru outport_dirn outport_idx =
     ru\<lparr>m_outports_dirn2idx := (m_outports_dirn2idx ru)(outport_dirn \<mapsto> outport_idx),
        m_outports_idx2dirn := (m_outports_idx2dirn ru)(outport_idx \<mapsto> outport_dirn)\<rparr>"

text \<open>
  \<^verbatim>\<open>m_outports_dirn2idx[dirn]\<close> read as a value: \<^verbatim>\<open>operator[]\<close> of \<^verbatim>\<open>std::map\<close> inserts
  the key with the value 0 when it is absent, and returns 0.
\<close>

definition outports_subscript :: "RoutingUnit \<Rightarrow> PortDirection \<Rightarrow> int \<times> RoutingUnit" where
  "outports_subscript ru dirn =
     (case m_outports_dirn2idx ru dirn of
        Some idx \<Rightarrow> (idx, ru)
      | None \<Rightarrow> (0, ru\<lparr>m_outports_dirn2idx := (m_outports_dirn2idx ru)(dirn \<mapsto> 0)\<rparr>))"

subsection \<open>Mesh: XY routing\<close>

definition outportComputeXY ::
  "RoutingUnit \<Rightarrow> RouteInfo \<Rightarrow> int \<Rightarrow> PortDirection \<Rightarrow> error + int \<times> RoutingUnit" where
  "outportComputeXY ru route inport inport_dirn =
     (let num_rows = getNumRows (m_router ru);
          num_cols = getNumCols (m_router ru)
      in if \<not> (num_rows > 0 \<and> num_cols > 0) then Inl AssertionFailed
      else
        let my_id = get_id (m_router ru);
            my_x = my_id smod num_cols;
            my_y = my_id sdiv num_cols;
            dest_id = dest_router route;
            dest_x = dest_id smod num_cols;
            dest_y = dest_id sdiv num_cols;
            x_hops = \<bar>dest_x - my_x\<bar>;
            y_hops = \<bar>dest_y - my_y\<bar>;
            x_dirn = (dest_x \<ge> my_x);
            y_dirn = (dest_y \<ge> my_y)
        in if x_hops = 0 \<and> y_hops = 0 then Inl AssertionFailed
        else if x_hops > 0 then
          (if x_dirn then
             (if inport_dirn = ''Local'' \<or> inport_dirn = ''West''
              then Inr (outports_subscript ru ''East'') else Inl AssertionFailed)
           else
             (if inport_dirn = ''Local'' \<or> inport_dirn = ''East''
              then Inr (outports_subscript ru ''West'') else Inl AssertionFailed))
        else if y_hops > 0 then
          (if y_dirn then
             (if inport_dirn \<noteq> ''North''
              then Inr (outports_subscript ru ''North'') else Inl AssertionFailed)
           else
             (if inport_dirn \<noteq> ''South''
              then Inr (outports_subscript ru ''South'') else Inl AssertionFailed))
        else Inl Panic)"

definition outportComputeCustom ::
  "RoutingUnit \<Rightarrow> RouteInfo \<Rightarrow> int \<Rightarrow> PortDirection \<Rightarrow> error + int \<times> RoutingUnit" where
  "outportComputeCustom ru route inport inport_dirn = Inl Panic"

subsection \<open>Torus: dimension-order routing\<close>

text \<open>
  The lambda \<^verbatim>\<open>torus_distance\<close> (the two routers define the same one):
  \<^verbatim>\<open>(dest - curr + dim_size) % dim_size\<close>, then \<^verbatim>\<open>(curr - dest + dim_size) % dim_size\<close>,
  each difference, sum and remainder in turn.
\<close>

definition torus_distance :: "int \<Rightarrow> int \<Rightarrow> int \<Rightarrow> error + int \<times> bool" where
  "torus_distance cur dest dim_size =
     and_then (c_int (dest - cur)) (\<lambda>forward_diff.
     and_then (c_int (forward_diff + dim_size)) (\<lambda>forward_sum.
     and_then (c_mod forward_sum dim_size) (\<lambda>forward_dist.
     and_then (c_int (cur - dest)) (\<lambda>backward_diff.
     and_then (c_int (backward_diff + dim_size)) (\<lambda>backward_sum.
     and_then (c_mod backward_sum dim_size) (\<lambda>backward_dist.
       if forward_dist \<le> backward_dist then Inr (forward_dist, True)
       else Inr (backward_dist, False)))))))"

text \<open>
  Both torus routers start with the same lines: the dimensions, the coordinates of this
  router and of the destination, and the three calls of \<open>torus_distance\<close>. They are one
  definition here, statement by statement in the order of the source; \<open>dim_x * dim_y\<close> is
  computed each time the source writes it.
\<close>

definition torus_distances ::
  "RoutingUnit \<Rightarrow> RouteInfo \<Rightarrow> error + (int \<times> bool) \<times> (int \<times> bool) \<times> (int \<times> bool)" where
  "torus_distances ru route =
     (let dim_x = getTorusX (m_router ru);
          dim_y = getTorusY (m_router ru);
          dim_z = getTorusZ (m_router ru);
          my_id = get_id (m_router ru);
          dest_id = dest_router route
      in
        and_then (c_int (dim_x * dim_y)) (\<lambda>plane.
        and_then (c_div my_id plane) (\<lambda>my_z.
        and_then (c_int (dim_x * dim_y)) (\<lambda>plane.
        and_then (c_mod my_id plane) (\<lambda>my_remainder.
        and_then (c_div my_remainder dim_x) (\<lambda>my_y.
        and_then (c_mod my_remainder dim_x) (\<lambda>my_x.
        and_then (c_int (dim_x * dim_y)) (\<lambda>plane.
        and_then (c_div dest_id plane) (\<lambda>dest_z.
        and_then (c_int (dim_x * dim_y)) (\<lambda>plane.
        and_then (c_mod dest_id plane) (\<lambda>dest_remainder.
        and_then (c_div dest_remainder dim_x) (\<lambda>dest_y.
        and_then (c_mod dest_remainder dim_x) (\<lambda>dest_x.
        and_then (torus_distance my_x dest_x dim_x) (\<lambda>xd.
        and_then (torus_distance my_y dest_y dim_y) (\<lambda>yd.
        and_then (torus_distance my_z dest_z dim_z) (\<lambda>zd.
          Inr (xd, yd, zd)))))))))))))))))"

text \<open>\<^verbatim>\<open>outportComputeTorus3D\<close>: X first, then Y, then Z.\<close>

definition outportComputeTorus3D ::
  "RoutingUnit \<Rightarrow> RouteInfo \<Rightarrow> int \<Rightarrow> PortDirection \<Rightarrow> error + int" where
  "outportComputeTorus3D ru route inport inport_dirn =
     (case torus_distances ru route of
        Inl e \<Rightarrow> Inl e
      | Inr ((x_dist, x_forward), (y_dist, y_forward), (z_dist, z_forward)) \<Rightarrow>
         (case (if x_dist > 0 then Inr (if x_forward then ''East'' else ''West'')
                else if y_dist > 0 then Inr (if y_forward then ''North'' else ''South'')
                else if z_dist > 0 then Inr (if z_forward then ''Up'' else ''Down'')
                else Inl Panic) of
            Inl e \<Rightarrow> Inl e
          | Inr outport_dirn \<Rightarrow>
              (case m_outports_dirn2idx ru outport_dirn of
                 None \<Rightarrow> Inl Panic
               | Some idx \<Rightarrow> Inr idx)))"

subsection \<open>Torus: adaptive routing with an escape channel\<close>

text \<open>
  \<^verbatim>\<open>checkAdaptiveVCAvailability\<close>: the two nested loops return true at the first idle
  channel with an offset from 1 in some virtual network, false when there is none.
\<close>

definition checkAdaptiveVCAvailability :: "RoutingUnit \<Rightarrow> int \<Rightarrow> error + bool" where
  "checkAdaptiveVCAvailability ru outport_idx =
     (case getOutputUnit (m_router ru) outport_idx of
        Inl e \<Rightarrow> Inl e
      | Inr output_unit \<Rightarrow>
          let vcs_per_vnet = getVcsPerVnet output_unit
          in if vcs_per_vnet = 0 then Inl DivisionByZero
          else
            let num_vnets = get_num_vcs (m_router ru) sdiv vcs_per_vnet
            in Inr (list_ex (\<lambda>vn.
                      list_ex (\<lambda>vc_offset. is_vc_idle output_unit (vn * vcs_per_vnet + vc_offset))
                        [1..vcs_per_vnet - 1])
                      [0..num_vnets - 1]))"

text \<open>
  The body of the inner loop of \<^verbatim>\<open>getDirectionCongestionScore\<close> on the pair
  \<open>(total_adaptive_vcs, idle_vcs)\<close>.
\<close>

definition count_vc :: "OutputUnit \<Rightarrow> int \<Rightarrow> int \<times> int \<Rightarrow> int \<times> int" where
  "count_vc output_unit vc_id c =
     (case c of (total_adaptive_vcs, idle_vcs) \<Rightarrow>
        (total_adaptive_vcs + 1,
         if is_vc_idle output_unit vc_id then idle_vcs + 1 else idle_vcs))"

text \<open>
  \<^verbatim>\<open>getDirectionCongestionScore\<close>; \<open>r\<close> is the value its call of \<^verbatim>\<open>rand()\<close> returns.
\<close>

definition getDirectionCongestionScore ::
  "RoutingUnit \<Rightarrow> int \<Rightarrow> PortDirection \<Rightarrow> nat \<Rightarrow> error + int" where
  "getDirectionCongestionScore ru outport_idx direction r =
     (case getOutputUnit (m_router ru) outport_idx of
        Inl e \<Rightarrow> Inl e
      | Inr output_unit \<Rightarrow>
          let vcs_per_vnet = getVcsPerVnet output_unit
          in if vcs_per_vnet = 0 then Inl DivisionByZero
          else
            let num_vnets = get_num_vcs (m_router ru) sdiv vcs_per_vnet;
                (total_adaptive_vcs, idle_vcs) =
                   fold (\<lambda>vn. fold (\<lambda>vc_offset.
                                 count_vc output_unit (vn * vcs_per_vnet + vc_offset))
                               [1..vcs_per_vnet - 1])
                        [0..num_vnets - 1] (0, 0);
                congestion_score =
                   (if total_adaptive_vcs > 0 then total_adaptive_vcs - idle_vcs else 100)
            in Inr (congestion_score + int r smod 3))"

text \<open>
  The loop of \<^verbatim>\<open>outportComputeTorus3DAdaptive\<close> over the candidates. Its state is
  \<open>(best_score, best_direction, found_adaptive_path)\<close> and the number \<open>k\<close> of calls of
  \<^verbatim>\<open>rand()\<close> made so far; \<open>rnd k\<close> is what the next call returns.
\<close>

fun adaptive_loop ::
  "RoutingUnit \<Rightarrow> (nat \<Rightarrow> nat) \<Rightarrow> PortDirection list \<Rightarrow> int \<times> PortDirection \<times> bool \<Rightarrow> nat
     \<Rightarrow> error + int \<times> PortDirection \<times> bool" where
  "adaptive_loop ru rnd [] st k = Inr st"
| "adaptive_loop ru rnd (direction # directions) st k =
     (case m_outports_dirn2idx ru direction of
        None \<Rightarrow> adaptive_loop ru rnd directions st k
      | Some outport_idx \<Rightarrow>
         (case checkAdaptiveVCAvailability ru outport_idx of
            Inl e \<Rightarrow> Inl e
          | Inr has_adaptive_vc \<Rightarrow>
              if has_adaptive_vc then
                (case getDirectionCongestionScore ru outport_idx direction (rnd k) of
                   Inl e \<Rightarrow> Inl e
                 | Inr congestion_score \<Rightarrow>
                     adaptive_loop ru rnd directions
                       (if congestion_score < fst st then (congestion_score, direction, True)
                        else st)
                       (Suc k))
              else adaptive_loop ru rnd directions st k))"

text \<open>The candidate directions the adaptive router collects: one per axis still to travel.\<close>

definition adaptive_candidates ::
  "int \<times> bool \<Rightarrow> int \<times> bool \<Rightarrow> int \<times> bool \<Rightarrow> PortDirection list" where
  "adaptive_candidates xd yd zd =
     (case (xd, yd, zd) of ((x_dist, x_forward), (y_dist, y_forward), (z_dist, z_forward)) \<Rightarrow>
        (if x_dist > 0 then [if x_forward then ''East'' else ''West''] else []) @
        (if y_dist > 0 then [if y_forward then ''North'' else ''South''] else []) @
        (if z_dist > 0 then [if z_forward then ''Up'' else ''Down''] else []))"

definition outportComputeTorus3DAdaptive ::
  "RoutingUnit \<Rightarrow> RouteInfo \<Rightarrow> int \<Rightarrow> PortDirection \<Rightarrow> (nat \<Rightarrow> nat) \<Rightarrow> error + int" where
  "outportComputeTorus3DAdaptive ru route inport inport_dirn rnd =
     (case torus_distances ru route of
        Inl e \<Rightarrow> Inl e
      | Inr ((x_dist, x_forward), (y_dist, y_forward), (z_dist, z_forward)) \<Rightarrow>
          let adaptive_cands =
                adaptive_candidates (x_dist, x_forward) (y_dist, y_forward) (z_dist, z_forward)
          in if adaptive_cands = [] then Inl Panic
          else
            (case adaptive_loop ru rnd adaptive_cands (INT_MAX, ''Unknown'', False) 0 of
               Inl e \<Rightarrow> Inl e
             | Inr (best_score, adaptive_direction, found_adaptive_path) \<Rightarrow>
                 let best_direction =
                       (if \<not> found_adaptive_path then
                          (if x_dist > 0 then (if x_forward then ''East'' else ''West'')
                           else if y_dist > 0 then (if y_forward then ''North'' else ''South'')
                           else if z_dist > 0 then (if z_forward then ''Up'' else ''Down'')
                           else adaptive_direction)
                        else adaptive_direction)
                 in (case m_outports_dirn2idx ru best_direction of
                       None \<Rightarrow> Inl Panic
                     | Some idx \<Rightarrow> Inr idx)))"

subsection \<open>The dispatcher\<close>

text \<open>
  \<^verbatim>\<open>outportCompute\<close>. Only \<^verbatim>\<open>outportComputeXY\<close> can write to the routing unit (through
  \<^verbatim>\<open>operator[]\<close> of the direction map), so the result carries the routing unit as well.
  \<open>rnd\<close> gives the values the successive calls of \<^verbatim>\<open>rand()\<close> return.
\<close>

definition outportCompute ::
  "int \<Rightarrow> RoutingUnit \<Rightarrow> RouteInfo \<Rightarrow> int \<Rightarrow> PortDirection \<Rightarrow> (nat \<Rightarrow> nat)
     \<Rightarrow> error + int \<times> RoutingUnit" where
  "outportCompute INFINITE ru route inport inport_dirn rnd =
     (if dest_router route = get_id (m_router ru) then
        map_sum id (\<lambda>outport. (outport, ru))
          (lookupRoutingTable INFINITE ru (vnet route) (net_dest route) (rnd 0))
      else
        (case (case getRoutingAlgorithm (m_router ru) of
                 TABLE \<Rightarrow> map_sum id (\<lambda>outport. (outport, ru))
                     (lookupRoutingTable INFINITE ru (vnet route) (net_dest route) (rnd 0))
               | XY \<Rightarrow> outportComputeXY ru route inport inport_dirn
               | CUSTOM \<Rightarrow> outportComputeCustom ru route inport inport_dirn
               | TORUS3D \<Rightarrow> map_sum id (\<lambda>outport. (outport, ru))
                     (outportComputeTorus3D ru route inport inport_dirn)
               | TORUS3D_ADAPTIVE \<Rightarrow> map_sum id (\<lambda>outport. (outport, ru))
                     (outportComputeTorus3DAdaptive ru route inport inport_dirn rnd)
               | OTHER \<Rightarrow> map_sum id (\<lambda>outport. (outport, ru))
                     (lookupRoutingTable INFINITE ru (vnet route) (net_dest route) (rnd 0))) of
           Inl e \<Rightarrow> Inl e
         | Inr (outport, ru') \<Rightarrow>
             if outport \<noteq> - 1 then Inr (outport, ru') else Inl AssertionFailed))"

section \<open>Notions used to state the properties\<close>

subsection \<open>Routing table\<close>

text \<open>
  \<open>link\<close> is a candidate link of class \<open>vn\<close> whose destination set meets the message's.
\<close>

definition intersecting :: "RoutingUnit \<Rightarrow> int \<Rightarrow> NetDest \<Rightarrow> nat \<Rightarrow> bool" where
  "intersecting ru vn msg_destination link \<longleftrightarrow>
     link < length (m_routing_table ru ! nat vn) \<and>
     intersectionIsNotEmpty msg_destination (m_routing_table ru ! nat vn ! link)"

text \<open>
  \<open>link\<close> is such a link, and no such link has a smaller weight.
\<close>

definition min_weight_link :: "RoutingUnit \<Rightarrow> int \<Rightarrow> NetDest \<Rightarrow> nat \<Rightarrow> bool" where
  "min_weight_link ru vn msg_destination link \<longleftrightarrow>
     intersecting ru vn msg_destination link \<and>
     (\<forall>l. intersecting ru vn msg_destination l \<longrightarrow> m_weight_table ru ! link \<le> m_weight_table ru ! l)"

text \<open>
  The class is an index of the routing table, and its list of links is no longer than the
  weight table.
\<close>

definition table_in_bounds :: "RoutingUnit \<Rightarrow> int \<Rightarrow> bool" where
  "table_in_bounds ru vn \<longleftrightarrow>
     0 \<le> vn \<and> vn < int (length (m_routing_table ru)) \<and>
     length (m_routing_table ru ! nat vn) \<le> length (m_weight_table ru)"

subsection \<open>Sequences of calls, and the selector\<close>

text \<open>The routing unit after the calls \<^verbatim>\<open>addRoute(e)\<close> for the entries \<open>e\<close> of a list, in order.\<close>

definition addRoutes :: "RoutingUnit \<Rightarrow> NetDest list list \<Rightarrow> RoutingUnit" where
  "addRoutes ru entries = foldl addRoute ru entries"

text \<open>The routing unit of a router whose network is configured with the algorithm \<open>alg\<close>.\<close>

definition with_algorithm :: "RoutingUnit \<Rightarrow> RoutingAlgorithm \<Rightarrow> RoutingUnit" where
  "with_algorithm ru alg = ru\<lparr>m_router := (m_router ru)\<lparr>getRoutingAlgorithm := alg\<rparr>\<rparr>"

subsection \<open>Mesh\<close>

text \<open>
  The direction of dimension-order routing on the mesh, in the words of the specification:
  X before Y; East or West by the sign of the X delta when it is not zero, else North or
  South by the sign of the Y delta.
\<close>

definition xy_direction :: "int \<Rightarrow> int \<Rightarrow> int \<Rightarrow> int \<Rightarrow> PortDirection" where
  "xy_direction my_x my_y dest_x dest_y =
     (if dest_x \<noteq> my_x then (if dest_x \<ge> my_x then ''East'' else ''West'')
      else (if dest_y \<ge> my_y then ''North'' else ''South''))"

text \<open>
  The arrival directions that the assertion of \<^verbatim>\<open>outportComputeXY\<close> accepts for a chosen
  output direction.
\<close>

definition xy_inport_allowed :: "PortDirection \<Rightarrow> PortDirection \<Rightarrow> bool" where
  "xy_inport_allowed outport_dirn inport_dirn =
     (if outport_dirn = ''East'' then inport_dirn = ''Local'' \<or> inport_dirn = ''West''
      else if outport_dirn = ''West'' then inport_dirn = ''Local'' \<or> inport_dirn = ''East''
      else if outport_dirn = ''North'' then inport_dirn \<noteq> ''North''
      else inport_dirn \<noteq> ''South'')"

subsection \<open>Torus\<close>

text \<open>
  Dimension-order routing on the torus, in the words of the specification: on each axis the
  forward distance \<open>(dest - cur + dim) mod dim\<close> and the backward distance
  \<open>(cur - dest + dim) mod dim\<close>; the distance is the smaller one, forward wins ties; route
  along the first axis, in the order X, Y, Z, whose distance is not zero.
\<close>

definition forward_dist :: "int \<Rightarrow> int \<Rightarrow> int \<Rightarrow> int" where
  "forward_dist cur dest dim = (dest - cur + dim) mod dim"

definition backward_dist :: "int \<Rightarrow> int \<Rightarrow> int \<Rightarrow> int" where
  "backward_dist cur dest dim = (cur - dest + dim) mod dim"

definition axis_distance :: "int \<Rightarrow> int \<Rightarrow> int \<Rightarrow> int" where
  "axis_distance cur dest dim = min (forward_dist cur dest dim) (backward_dist cur dest dim)"

definition axis_forward :: "int \<Rightarrow> int \<Rightarrow> int \<Rightarrow> bool" where
  "axis_forward cur dest dim \<longleftrightarrow> forward_dist cur dest dim \<le> backward_dist cur dest dim"

definition dor_direction ::
  "int \<times> int \<times> int \<Rightarrow> int \<times> int \<times> int \<Rightarrow> int \<times> int \<times> int \<Rightarrow> PortDirection option" where
  "dor_direction cur dest dims =
     (case (cur, dest, dims) of ((cx, cy, cz), (dx, dy, dz), (X, Y, Z)) \<Rightarrow>
        if axis_distance cx dx X \<noteq> 0
          then Some (if axis_forward cx dx X then ''East'' else ''West'')
        else if axis_distance cy dy Y \<noteq> 0
          then Some (if axis_forward cy dy Y then ''North'' else ''South'')
        else if axis_distance cz dz Z \<noteq> 0
          then Some (if axis_forward cz dz Z then ''Up'' else ''Down'')
        else None)"

subsection \<open>Adaptive channels\<close>

text \<open>
  The adaptive channels of an output port: in the group of each virtual network, the
  channels with an offset from 1 (offset 0 is the escape channel).
\<close>

definition adaptive_vc_ids :: "RoutingUnit \<Rightarrow> OutputUnit \<Rightarrow> int list" where
  "adaptive_vc_ids ru output_unit =
     concat (map (\<lambda>vn. map (\<lambda>vc_offset. vn * getVcsPerVnet output_unit + vc_offset)
                         [1..getVcsPerVnet output_unit - 1])
                 [0..get_num_vcs (m_router ru) sdiv getVcsPerVnet output_unit - 1])"

text \<open>Those of them that are idle, for the output port with the given index.\<close>

definition idle_adaptive_vcs :: "RoutingUnit \<Rightarrow> int \<Rightarrow> int list" where
  "idle_adaptive_vcs ru outport_idx =
     (case getOutputUnit (m_router ru) outport_idx of
        Inl e \<Rightarrow> []
      | Inr output_unit \<Rightarrow> filter (is_vc_idle output_unit) (adaptive_vc_ids ru output_unit))"

text \<open>
  The port index has an output unit, and that unit has a number of channels per virtual
  network other than zero.
\<close>

definition port_ok :: "RoutingUnit \<Rightarrow> int \<Rightarrow> bool" where
  "port_ok ru outport_idx =
     (case getOutputUnit (m_router ru) outport_idx of
        Inl e \<Rightarrow> False
      | Inr output_unit \<Rightarrow> getVcsPerVnet output_unit \<noteq> 0)"

text \<open>
  The minimal-path candidate directions of a query, as the adaptive router collects them.
\<close>

definition minimal_path_candidates :: "RoutingUnit \<Rightarrow> RouteInfo \<Rightarrow> PortDirection list" where
  "minimal_path_candidates ru route =
     (case torus_distances ru route of
        Inl e \<Rightarrow> []
      | Inr (xd, yd, zd) \<Rightarrow> adaptive_candidates xd yd zd)"

subsection \<open>Example configurations\<close>

text \<open>
  Router 0 of a 4 x 4 x 1 torus (or 4 x 4 mesh) with two virtual networks of two channels
  each, three links, and class 0 ordered. On output port 2 one adaptive channel is idle.
\<close>

definition example_router :: Router where
  "example_router =
     \<lparr> get_id = 0, get_num_vcs = 4,
       m_output_unit = [\<lparr>getVcsPerVnet = 2, is_vc_idle = (\<lambda>vc. False)\<rparr>,
                        \<lparr>getVcsPerVnet = 2, is_vc_idle = (\<lambda>vc. False)\<rparr>,
                        \<lparr>getVcsPerVnet = 2, is_vc_idle = (\<lambda>vc. vc = 3)\<rparr>],
       getRoutingAlgorithm = TABLE, isVNetOrdered = (\<lambda>vn. vn = 0),
       getNumRows = 4, getNumCols = 4, getTorusX = 4, getTorusY = 4, getTorusZ = 1 \<rparr>"

definition example_unit :: RoutingUnit where
  "example_unit =
     \<lparr> m_router = example_router,
       m_routing_table = [[{5}, {5, 6}, {5}], [{5}, {5, 6}, {5}]],
       m_weight_table = [2, 1, 1],
       m_inports_dirn2idx = Map.empty, m_inports_idx2dirn = Map.empty,
       m_outports_idx2dirn = [1 \<mapsto> ''East'', 2 \<mapsto> ''North''],
       m_outports_dirn2idx = [''East'' \<mapsto> 1, ''North'' \<mapsto> 2] \<rparr>"

text \<open>
  The same unit with a single link of weight 10001, and with three links of weights 10002,
  10001 and 10001 for the one class 0.
\<close>

definition heavy_unit :: RoutingUnit where
  "heavy_unit = example_unit\<lparr>m_routing_table := [[{5}]], m_weight_table := [10001]\<rparr>"

definition heavy_ordered_unit :: RoutingUnit where
  "heavy_ordered_unit =
     example_unit\<lparr>m_routing_table := [[{5}, {5}, {5}]],
                  m_weight_table := [10002, 10001, 10001]\<rparr>"

text \<open>
  A fresh routing unit after \<^verbatim>\<open>addRoute\<close> with an entry for two classes, and the same
  after a second call whose entry has one class only.
\<close>

definition two_class_unit :: RoutingUnit where
  "two_class_unit = addRoute (RoutingUnit_new example_router) [{5}, {6}]"

definition short_entry_unit :: RoutingUnit where
  "short_entry_unit = addRoute two_class_unit [{7}]"

text \<open>
  The example unit on a network configured for XY routing, the same with no direction
  registered, and the example unit on a network configured for torus routing.
\<close>

definition mesh_unit :: RoutingUnit where
  "mesh_unit = with_algorithm example_unit XY"

definition bare_mesh_unit :: RoutingUnit where
  "bare_mesh_unit = mesh_unit\<lparr>m_outports_dirn2idx := Map.empty, m_outports_idx2dirn := Map.empty\<rparr>"

definition torus_unit :: RoutingUnit where
  "torus_unit = with_algorithm example_unit TORUS3D"

text \<open>
  The example unit on a network configured for adaptive torus routing; the same with every
  channel busy; and the same with one channel per virtual network, so with no adaptive
  channel at all.
\<close>

definition adaptive_unit :: RoutingUnit where
  "adaptive_unit = with_algorithm example_unit TORUS3D_ADAPTIVE"

definition busy_unit :: RoutingUnit where
  "busy_unit = adaptive_unit\<lparr>m_router := (m_router adaptive_unit)
       \<lparr>m_output_unit := [\<lparr>getVcsPerVnet = 2, is_vc_idle = (\<lambda>vc. False)\<rparr>,
                          \<lparr>getVcsPerVnet = 2, is_vc_idle = (\<lambda>vc. False)\<rparr>,
                          \<lparr>getVcsPerVnet = 2, is_vc_idle = (\<lambda>vc. False)\<rparr>]\<rparr>\<rparr>"

definition single_vc_output :: OutputUnit where
  "single_vc_output = \<lparr>getVcsPerVnet = 1, is_vc_idle = (\<lambda>vc. True)\<rparr>"

definition single_vc_unit :: RoutingUnit where
  "single_vc_unit = adaptive_unit\<lparr>m_router := (m_router adaptive_unit)
       \<lparr>get_num_vcs := 2, m_output_unit := [single_vc_output, single_vc_output]\<rparr>\<rparr>"

section \<open>Properties\<close>

subsection \<open>Arithmetic and indexing\<close>

text \<open>On non-negative numbers C's division and remainder are \<open>div\<close> and \<open>mod\<close>.\<close>

lemma and_then_simps [simp]:
  "and_then (Inr v) f = f v" "and_then (Inl e) f = Inl e"
  by (simp_all add: and_then_def)

lemma int_range_nonneg: "0 \<le> v \<Longrightarrow> v \<le> INT_MAX \<Longrightarrow> int_range v"
  by (simp add: int_range_def INT_MIN_def)

lemma int_range_sdiv: "0 \<le> a \<Longrightarrow> a \<le> INT_MAX \<Longrightarrow> int_range (a sdiv b)"
  using sdiv_int_range [of a b] by (simp add: int_range_def INT_MIN_def INT_MAX_def)

lemma c_int_ok: "int_range v \<Longrightarrow> c_int v = Inr v"
  by (simp add: c_int_def)

lemma c_div_ok: "b \<noteq> 0 \<Longrightarrow> int_range (a sdiv b) \<Longrightarrow> c_div a b = Inr (a sdiv b)"
  by (simp add: c_div_def c_int_def)

lemma c_mod_ok: "b \<noteq> 0 \<Longrightarrow> int_range (a sdiv b) \<Longrightarrow> c_mod a b = Inr (a smod b)"
  by (simp add: c_mod_def)

lemma smod_nonneg: "0 \<le> a \<Longrightarrow> 0 < b \<Longrightarrow> (a::int) smod b = a mod b"
  by (cases "a = 0") (simp_all add: smod_int_alt_def)

lemma sdiv_nonneg: "0 \<le> a \<Longrightarrow> 0 < b \<Longrightarrow> (a::int) sdiv b = a div b"
  by (cases "a = 0") (simp_all add: signed_divide_int_def)

lemma vec_index_nat [simp]: "vec_index xs (int l) = (if l < length xs then Inr (xs ! l) else Inl OutOfBounds)"
  by (simp add: vec_index_def)

subsection \<open>The routing table lookup\<close>

text \<open>
  The two loops, over links that are in bounds: the first returns a weight that is at most the
  initial one and at most the weight of every intersecting link, and is the initial one or the
  weight of an intersecting link; the second returns the intersecting links of that weight.
\<close>

lemma min_weight_loop_spec:
  assumes "\<forall>l\<in>set links. l < length row \<and> l < length weights"
  shows "\<exists>m. min_weight_loop row weights d links mw = Inr m \<and> m \<le> mw
           \<and> (\<forall>l\<in>set links. intersectionIsNotEmpty d (row ! l) \<longrightarrow> m \<le> weights ! l)
           \<and> (m = mw \<or> (\<exists>l\<in>set links. intersectionIsNotEmpty d (row ! l) \<and> weights ! l = m))"
  using assms
proof (induction links arbitrary: mw)
  case Nil
  then show ?case by simp
next
  case (Cons link links)
  have in_range: "\<forall>l\<in>set links. l < length row \<and> l < length weights"
    using Cons.prems by simp
  have here: "link < length row" "link < length weights"
    using Cons.prems by simp_all
  show ?case
  proof (cases "intersectionIsNotEmpty d (row ! link)")
    case False
    from Cons.IH [OF in_range, of mw] obtain m where
      "min_weight_loop row weights d links mw = Inr m" "m \<le> mw"
      "\<forall>l\<in>set links. intersectionIsNotEmpty d (row ! l) \<longrightarrow> m \<le> weights ! l"
      "m = mw \<or> (\<exists>l\<in>set links. intersectionIsNotEmpty d (row ! l) \<and> weights ! l = m)"
      by blast
    with False here show ?thesis by auto
  next
    case True
    define mw' where "mw' = (if weights ! link \<le> mw then weights ! link else mw)"
    from Cons.IH [OF in_range, of mw'] obtain m where m:
      "min_weight_loop row weights d links mw' = Inr m" "m \<le> mw'"
      "\<forall>l\<in>set links. intersectionIsNotEmpty d (row ! l) \<longrightarrow> m \<le> weights ! l"
      "m = mw' \<or> (\<exists>l\<in>set links. intersectionIsNotEmpty d (row ! l) \<and> weights ! l = m)"
      by blast
    have eq: "min_weight_loop row weights d (link # links) mw = Inr m"
      using True here m(1) by (simp add: mw'_def)
    have le: "m \<le> mw" "m \<le> weights ! link"
      using m(2) by (simp_all add: mw'_def split: if_splits)
    have att: "m = mw \<or> (\<exists>l\<in>set (link # links). intersectionIsNotEmpty d (row ! l) \<and> weights ! l = m)"
      using m(4) True by (auto simp: mw'_def split: if_splits)
    show ?thesis using eq le m(3) att by auto
  qed
qed

lemma candidates_loop_spec:
  assumes "\<forall>l\<in>set links. l < length row \<and> l < length weights"
  shows "candidates_loop row weights d m links acc =
           Inr (acc @ map int (filter (\<lambda>l. intersectionIsNotEmpty d (row ! l) \<and> weights ! l = m) links))"
  using assms by (induction links arbitrary: acc) simp_all

lemma in_filter_upt: "x \<in> set (filter P [0..<n]) \<longleftrightarrow> x < n \<and> P x"
  by auto

lemma sorted_first_le:
  assumes "sorted (c :: nat list)" "l \<in> set c"
  shows "c ! 0 \<le> l"
proof -
  from assms(2) obtain j where j: "j < length c" "c ! j = l"
    unfolding in_set_conv_nth by blast
  from assms(1) j(1) have "c ! 0 \<le> c ! j"
    by (rule sorted_nth_mono [of c 0 j, OF _ le0])
  with j(2) show ?thesis by simp
qed

lemma filter_upt_first:
  assumes "filter P [0..<n] \<noteq> []"
  shows "P (filter P [0..<n] ! 0) \<and> filter P [0..<n] ! 0 < n \<and> (\<forall>l < filter P [0..<n] ! 0. \<not> P l)"
proof -
  define c where "c = filter P [0..<n]"
  have "0 < length c" using assms by (simp add: c_def)
  then have "c ! 0 \<in> set c" by (rule nth_mem)
  then have mem: "c ! 0 < n \<and> P (c ! 0)" unfolding c_def in_filter_upt .
  have srt: "sorted c" unfolding c_def by (rule sorted_wrt_filter) simp
  have least: "\<not> P l" if "l < c ! 0" for l
  proof
    assume "P l"
    moreover have "l < n" using that mem by simp
    ultimately have "l \<in> set c" unfolding c_def in_filter_upt by simp
    with srt have "c ! 0 \<le> l" by (rule sorted_first_le)
    with that show False by simp
  qed
  from mem least show ?thesis unfolding c_def by blast
qed

lemma filter_upt_nth:
  assumes "i < length (filter P [0..<n])"
  shows "P (filter P [0..<n] ! i) \<and> filter P [0..<n] ! i < n"
  using nth_mem [OF assms] unfolding in_filter_upt by simp

lemma lookupRoutingTable_unfold:
  assumes "vec_index (m_routing_table ru) vn = Inr row"
    and "min_weight_loop row (m_weight_table ru) d [0..<length row] INFINITE = Inr m"
    and "candidates_loop row (m_weight_table ru) d m [0..<length row] [] = Inr cs"
  shows "lookupRoutingTable INFINITE ru vn d r =
           (if cs = [] then Inl Fatal
            else vec_at cs (if isVNetOrdered (m_router ru) vn then 0
                            else int r smod int (length cs)))"
  using assms by (simp add: lookupRoutingTable_def Let_def)

lemma vec_at_map_int:
  "i < length c \<Longrightarrow> vec_at (map int c) (int i) = Inr (int (c ! i))"
  by (simp add: vec_at_def)

lemma lookupRoutingTable_char:
  assumes "table_in_bounds ru vn"
  shows "\<exists>m. m \<le> INFINITE
           \<and> (\<forall>l. intersecting ru vn d l \<longrightarrow> m \<le> m_weight_table ru ! l)
           \<and> (m = INFINITE \<or> (\<exists>l. intersecting ru vn d l \<and> m_weight_table ru ! l = m))
           \<and> lookupRoutingTable INFINITE ru vn d r =
               (let cands = filter (\<lambda>l. intersecting ru vn d l \<and> m_weight_table ru ! l = m)
                              [0..<length (m_routing_table ru ! nat vn)]
                in if cands = [] then Inl Fatal
                   else Inr (int (cands ! (if isVNetOrdered (m_router ru) vn then 0
                                            else r mod length cands))))"
proof -
  define row where "row = m_routing_table ru ! nat vn"
  define ws where "ws = m_weight_table ru"
  have vn: "vec_index (m_routing_table ru) vn = Inr row"
    using assms by (simp add: table_in_bounds_def vec_index_def row_def)
  have rng: "\<forall>l\<in>set [0..<length row]. l < length row \<and> l < length ws"
    using assms by (auto simp: table_in_bounds_def row_def ws_def)
  from min_weight_loop_spec [OF rng, of d INFINITE] obtain m where m:
    "min_weight_loop row ws d [0..<length row] INFINITE = Inr m" "m \<le> INFINITE"
    "\<forall>l\<in>set [0..<length row]. intersectionIsNotEmpty d (row ! l) \<longrightarrow> m \<le> ws ! l"
    "m = INFINITE \<or> (\<exists>l\<in>set [0..<length row]. intersectionIsNotEmpty d (row ! l) \<and> ws ! l = m)"
    by blast
  define c where
    "c = filter (\<lambda>l. intersecting ru vn d l \<and> m_weight_table ru ! l = m) [0..<length row]"
  have flt: "filter (\<lambda>l. intersectionIsNotEmpty d (row ! l) \<and> ws ! l = m) [0..<length row] = c"
    unfolding c_def by (rule filter_cong) (auto simp: intersecting_def row_def ws_def)
  have cl: "candidates_loop row ws d m [0..<length row] [] = Inr (map int c)"
    using candidates_loop_spec [OF rng, of d m "[]"] flt by simp
  have unf: "lookupRoutingTable INFINITE ru vn d r =
           (if map int c = [] then Inl Fatal
            else vec_at (map int c) (if isVNetOrdered (m_router ru) vn then 0
                            else int r smod int (length (map int c))))"
    using vn m(1) cl unfolding ws_def by (rule lookupRoutingTable_unfold)
  have res: "lookupRoutingTable INFINITE ru vn d r =
         (if c = [] then Inl Fatal
          else Inr (int (c ! (if isVNetOrdered (m_router ru) vn then 0 else r mod length c))))"
  proof (cases "c = []")
    case True
    then show ?thesis using unf by simp
  next
    case False
    then have pos: "0 < length c" by simp
    have sm: "int r smod int (length c) = int (r mod length c)"
      using pos by (simp add: smod_nonneg zmod_int)
    have lt: "r mod length c < length c" using pos by simp
    show ?thesis
    proof (cases "isVNetOrdered (m_router ru) vn")
      case True
      have "lookupRoutingTable INFINITE ru vn d r = vec_at (map int c) (int 0)"
        using unf True False by simp
      also have "\<dots> = Inr (int (c ! 0))" using pos by (rule vec_at_map_int)
      finally show ?thesis using True False by simp
    next
      case ord: False
      have "lookupRoutingTable INFINITE ru vn d r = vec_at (map int c) (int (r mod length c))"
        using unf ord False sm by simp
      also have "\<dots> = Inr (int (c ! (r mod length c)))" using lt by (rule vec_at_map_int)
      finally show ?thesis using ord False by simp
    qed
  qed
  have p2: "\<forall>l. intersecting ru vn d l \<longrightarrow> m \<le> m_weight_table ru ! l"
    using m(3) by (auto simp: intersecting_def row_def ws_def)
  have p3: "m = INFINITE \<or> (\<exists>l. intersecting ru vn d l \<and> m_weight_table ru ! l = m)"
    using m(4) by (auto simp: intersecting_def row_def ws_def)
  have res': "lookupRoutingTable INFINITE ru vn d r =
               (let cands = filter (\<lambda>l. intersecting ru vn d l \<and> m_weight_table ru ! l = m)
                              [0..<length (m_routing_table ru ! nat vn)]
                in if cands = [] then Inl Fatal
                   else Inr (int (cands ! (if isVNetOrdered (m_router ru) vn then 0
                                            else r mod length cands))))"
    unfolding Let_def res c_def row_def ..
  show ?thesis
    using m(2) p2 p3 res' by (intro exI [of _ m] conjI)
qed


lemma char_fatal_iff:
  assumes lo: "\<forall>l. Q l \<longrightarrow> m \<le> w l"
    and att: "m = INFINITE \<or> (\<exists>l. Q l \<and> w l = m)"
    and "m \<le> (INFINITE::int)"
  shows "(\<forall>l. \<not> (Q l \<and> w l = m)) \<longleftrightarrow> \<not> (\<exists>l. Q l \<and> w l \<le> INFINITE)"
  using assms by (metis order.antisym)

lemma lookupRoutingTable_result:
  assumes "table_in_bounds ru vn"
  shows "(lookupRoutingTable INFINITE ru vn d r = Inl Fatal
            \<and> \<not> (\<exists>l. intersecting ru vn d l \<and> m_weight_table ru ! l \<le> INFINITE))
       \<or> (\<exists>link. lookupRoutingTable INFINITE ru vn d r = Inr (int link)
              \<and> min_weight_link ru vn d link
              \<and> m_weight_table ru ! link \<le> INFINITE
              \<and> (isVNetOrdered (m_router ru) vn \<longrightarrow>
                   (\<forall>l < link. \<not> min_weight_link ru vn d l)))"
proof -
  define n where "n = length (m_routing_table ru ! nat vn)"
  from lookupRoutingTable_char [OF assms, of INFINITE d r] obtain m where m:
    "m \<le> INFINITE"
    "\<forall>l. intersecting ru vn d l \<longrightarrow> m \<le> m_weight_table ru ! l"
    "m = INFINITE \<or> (\<exists>l. intersecting ru vn d l \<and> m_weight_table ru ! l = m)"
    and res: "lookupRoutingTable INFINITE ru vn d r =
       (let cands = filter (\<lambda>l. intersecting ru vn d l \<and> m_weight_table ru ! l = m) [0..<n]
        in if cands = [] then Inl Fatal
           else Inr (int (cands ! (if isVNetOrdered (m_router ru) vn then 0
                                   else r mod length cands))))"
    unfolding n_def by blast
  define P where "P = (\<lambda>l. intersecting ru vn d l \<and> m_weight_table ru ! l = m)"
  define c where "c = filter P [0..<n]"
  define i where "i = (if isVNetOrdered (m_router ru) vn then 0 else r mod length c)"
  have res': "lookupRoutingTable INFINITE ru vn d r = (if c = [] then Inl Fatal else Inr (int (c ! i)))"
    using res unfolding Let_def c_def i_def P_def .
  have inter_lt: "l < n" if "intersecting ru vn d l" for l
    using that by (simp add: intersecting_def n_def)
  have empty_iff: "c = [] \<longleftrightarrow> (\<forall>l. \<not> (intersecting ru vn d l \<and> m_weight_table ru ! l = m))"
    unfolding c_def P_def filter_empty_conv using inter_lt by auto
  have fatal_iff: "c = [] \<longleftrightarrow> \<not> (\<exists>l. intersecting ru vn d l \<and> m_weight_table ru ! l \<le> INFINITE)"
    unfolding empty_iff using m(2) m(3) m(1) by (rule char_fatal_iff)
  show ?thesis
  proof (cases "c = []")
    case True
    with res' fatal_iff show ?thesis by simp
  next
    case ne: False
    then have "i < length c" by (simp add: i_def)
    then have "P (c ! i)"
      using filter_upt_nth [of i P n] unfolding c_def by simp
    then have Pi: "intersecting ru vn d (c ! i)" "m_weight_table ru ! (c ! i) = m"
      by (simp_all add: P_def)
    have mw: "min_weight_link ru vn d l \<longleftrightarrow> P l" for l
    proof
      assume "min_weight_link ru vn d l"
      then have "intersecting ru vn d l" "m_weight_table ru ! l \<le> m_weight_table ru ! (c ! i)"
        using Pi(1) by (simp_all add: min_weight_link_def)
      with Pi(2) m(2) show "P l" by (simp add: P_def order.antisym)
    next
      assume "P l"
      with m(2) show "min_weight_link ru vn d l" by (simp add: P_def min_weight_link_def)
    qed
    have first: "\<forall>l < c ! i. \<not> min_weight_link ru vn d l" if "isVNetOrdered (m_router ru) vn"
    proof -
      from that have "i = 0" by (simp add: i_def)
      moreover have "\<forall>l < c ! 0. \<not> P l"
        using filter_upt_first [of P n] ne unfolding c_def by blast
      ultimately show ?thesis by (simp add: mw)
    qed
    have "lookupRoutingTable INFINITE ru vn d r = Inr (int (c ! i))"
      using res' ne by simp
    moreover have "min_weight_link ru vn d (c ! i)"
      using \<open>P (c ! i)\<close> by (simp add: mw)
    moreover have "m_weight_table ru ! (c ! i) \<le> INFINITE"
      using Pi(2) m(1) by simp
    ultimately show ?thesis using first by blast
  qed
qed

text \<open>
  What the lookup does for a class that is an index of the routing table, whose list of
  links is no longer than the weight table: it ends in \<^verbatim>\<open>fatal\<close> if and only if no link
  whose destination set meets the message's has a weight of at most \<^verbatim>\<open>INFINITE_\<close>; when
  there is such a link, it returns the index of a link that meets the message's destination
  set and has the least weight among the links that do, and the index is never \<open>-1\<close>.
\<close>

lemma lookupRoutingTable_route:
  assumes "table_in_bounds ru vn"
  shows "(lookupRoutingTable INFINITE ru vn d r = Inl Fatal \<longleftrightarrow>
            \<not> (\<exists>l. intersecting ru vn d l \<and> m_weight_table ru ! l \<le> INFINITE))
       \<and> ((\<exists>l. intersecting ru vn d l \<and> m_weight_table ru ! l \<le> INFINITE) \<longrightarrow>
            (\<exists>link. lookupRoutingTable INFINITE ru vn d r = Inr (int link)
                    \<and> min_weight_link ru vn d link \<and> int link \<noteq> - 1))"
proof -
  have "int link \<noteq> - 1" for link by simp
  moreover have "intersecting ru vn d link" if "min_weight_link ru vn d link" for link
    using that by (simp add: min_weight_link_def)
  ultimately show ?thesis
    using lookupRoutingTable_result [OF assms, of INFINITE d r]
    by (metis Inl_Inr_False)
qed

lemma example_unit_in_bounds: "table_in_bounds example_unit 0"
  by (simp add: table_in_bounds_def example_unit_def)

lemma example_unit_intersecting: "intersecting example_unit 0 {5} 1"
  by (simp add: intersecting_def example_unit_def intersectionIsNotEmpty_def)

lemma lookupRoutingTable_route_example:
  "table_in_bounds example_unit 0
     \<and> (\<exists>l. intersecting example_unit 0 {5} l \<and> m_weight_table example_unit ! l \<le> 10000)
     \<and> lookupRoutingTable 10000 example_unit 0 {5} 0 \<noteq> Inl Fatal
     \<and> (\<exists>link. lookupRoutingTable 10000 example_unit 0 {5} 0 = Inr (int link)
                \<and> min_weight_link example_unit 0 {5} link)"
proof -
  have ex: "\<exists>l. intersecting example_unit 0 {5} l \<and> m_weight_table example_unit ! l \<le> 10000"
    using example_unit_intersecting by (intro exI [of _ 1]) (simp add: example_unit_def)
  from lookupRoutingTable_route [OF example_unit_in_bounds, of 10000 "{5}" 0] ex
  show ?thesis using example_unit_in_bounds by blast
qed

text \<open>
  The lookup on the example: links 1 and 2 tie at weight 1 and class 0 is ordered, so link 1
  is returned whatever the random source gives.
\<close>

lemma lookupRoutingTable_example: "lookupRoutingTable 10000 example_unit 0 {5} 7 = Inr 1"
  by (simp add: lookupRoutingTable_def example_unit_def example_router_def vec_at_def
        vec_index_def intersectionIsNotEmpty_def upt_rec [of 0] upt_rec [of 1] upt_rec [of 2]
        upt_rec [of 3] smod_nonneg)

text \<open>
  For an ordered class the result does not depend on what \<^verbatim>\<open>rand()\<close> would return; when
  the table is in bounds and some link that meets the destination set weighs at most
  \<^verbatim>\<open>INFINITE_\<close>, the result is the lowest index among the links of least weight that meet
  the destination set.
\<close>

lemma lookupRoutingTable_ordered:
  assumes "isVNetOrdered (m_router ru) vn"
  shows "lookupRoutingTable INFINITE ru vn d r = lookupRoutingTable INFINITE ru vn d r'
       \<and> (table_in_bounds ru vn \<longrightarrow>
            (\<exists>l. intersecting ru vn d l \<and> m_weight_table ru ! l \<le> INFINITE) \<longrightarrow>
            (\<exists>link. lookupRoutingTable INFINITE ru vn d r = Inr (int link)
                    \<and> min_weight_link ru vn d link
                    \<and> (\<forall>l < link. \<not> min_weight_link ru vn d l)))"
proof -
  have "lookupRoutingTable INFINITE ru vn d r = lookupRoutingTable INFINITE ru vn d r'"
    using assms by (simp add: lookupRoutingTable_def split: sum.splits)
  moreover have "\<exists>link. lookupRoutingTable INFINITE ru vn d r = Inr (int link)
                    \<and> min_weight_link ru vn d link
                    \<and> (\<forall>l < link. \<not> min_weight_link ru vn d l)"
    if "table_in_bounds ru vn"
      "\<exists>l. intersecting ru vn d l \<and> m_weight_table ru ! l \<le> INFINITE"
    using lookupRoutingTable_result [OF that(1), of INFINITE d r] that(2) assms by blast
  ultimately show ?thesis by blast
qed

lemma lookupRoutingTable_ordered_example:
  "isVNetOrdered (m_router example_unit) 0 \<and> table_in_bounds example_unit 0
     \<and> (\<exists>l. intersecting example_unit 0 {5} l \<and> m_weight_table example_unit ! l \<le> 10000)
     \<and> lookupRoutingTable 10000 example_unit 0 {5} 5 = lookupRoutingTable 10000 example_unit 0 {5} 8
     \<and> (\<exists>link. lookupRoutingTable 10000 example_unit 0 {5} 5 = Inr (int link)
                \<and> min_weight_link example_unit 0 {5} link
                \<and> (\<forall>l < link. \<not> min_weight_link example_unit 0 {5} l))"
proof -
  have ord: "isVNetOrdered (m_router example_unit) 0"
    by (simp add: example_unit_def example_router_def)
  have ex: "\<exists>l. intersecting example_unit 0 {5} l \<and> m_weight_table example_unit ! l \<le> 10000"
    using example_unit_intersecting by (intro exI [of _ 1]) (simp add: example_unit_def)
  from lookupRoutingTable_ordered [OF ord, of 10000 "{5}" 5 8] ex example_unit_in_bounds ord
  show ?thesis by blast
qed

text \<open>
  Whatever the value of \<^verbatim>\<open>INFINITE_\<close>, a single link that meets the destination set and
  is heavier than it is not found.
\<close>

lemma lookupRoutingTable_above_INFINITE:
  "lookupRoutingTable v (example_unit\<lparr>m_routing_table := [[{5}]], m_weight_table := [v + 1]\<rparr>)
     0 {5} r = Inl Fatal"
  by (simp add: lookupRoutingTable_def vec_index_def intersectionIsNotEmpty_def)

text \<open>
  Claim C1: \<^verbatim>\<open>lookupRoutingTable\<close> ends in \<^verbatim>\<open>fatal\<close> if and only if no candidate link's
  destination set meets the message's, and otherwise returns a link of least weight among
  those that do. The code breaks it. Its first loop, commented "Identify the minimum weight
  among the candidate output links", starts from \<^verbatim>\<open>min_weight = INFINITE_\<close> and takes a
  weight only when it is at most the current minimum. With \<^verbatim>\<open>INFINITE_\<close> = 10000 and a
  single link of weight 10001 whose destination set meets the message's, the minimum stays
  at 10000, the second loop finds no link of that weight, and the call ends in \<^verbatim>\<open>fatal\<close>
  ("No Route exists from this Router") although link 0 intersects.
\<close>

theorem lookupRoutingTable_heavy_fatal:
  "table_in_bounds heavy_unit 0
     \<and> m_weight_table heavy_unit = [10001]
     \<and> intersectionIsNotEmpty {5} (m_routing_table heavy_unit ! 0 ! 0)
     \<and> lookupRoutingTable 10000 heavy_unit 0 {5} 0 = Inl Fatal"
  by (simp add: lookupRoutingTable_def heavy_unit_def example_unit_def example_router_def
        table_in_bounds_def vec_index_def intersectionIsNotEmpty_def)

text \<open>
  Claim C4: for an ordered class \<^verbatim>\<open>lookupRoutingTable\<close> returns the first of the links of
  least weight that meet the destination set, whatever the random source. The same defect
  of the code breaks it. Class 0 is ordered and has three links that all meet the
  destination set, of weights 10002, 10001 and 10001: the first link of least weight is
  link 1. With \<^verbatim>\<open>INFINITE_\<close> = 10000 the call ends in \<^verbatim>\<open>fatal\<close> instead, for every value \<open>r\<close>
  of the random source.
\<close>

theorem lookupRoutingTable_ordered_heavy_fatal:
  "isVNetOrdered (m_router heavy_ordered_unit) 0
     \<and> table_in_bounds heavy_ordered_unit 0
     \<and> m_weight_table heavy_ordered_unit = [10002, 10001, 10001]
     \<and> intersecting heavy_ordered_unit 0 {5} 0
     \<and> intersecting heavy_ordered_unit 0 {5} 1
     \<and> intersecting heavy_ordered_unit 0 {5} 2
     \<and> lookupRoutingTable 10000 heavy_ordered_unit 0 {5} r = Inl Fatal"
  by (simp add: lookupRoutingTable_def heavy_ordered_unit_def example_unit_def
        example_router_def table_in_bounds_def intersecting_def vec_index_def
        intersectionIsNotEmpty_def upt_rec [of 0] upt_rec [of 1] upt_rec [of 2]
        upt_rec [of 3])

text \<open>
  Claim C9. When the class is an index of the routing table and its list of links is no
  longer than the weight table, no index that \<^verbatim>\<open>lookupRoutingTable\<close> uses on the routing
  table, the weight table or the list of candidates is out of bounds.
\<close>

theorem lookupRoutingTable_in_bounds:
  assumes "0 \<le> vn" "vn < int (length (m_routing_table ru))"
    and "length (m_routing_table ru ! nat vn) \<le> length (m_weight_table ru)"
  shows "lookupRoutingTable INFINITE ru vn d r \<noteq> Inl OutOfBounds
       \<and> lookupRoutingTable INFINITE ru vn d r \<noteq> Inl OutOfRange"
proof -
  have "table_in_bounds ru vn" using assms by (simp add: table_in_bounds_def)
  from lookupRoutingTable_result [OF this, of INFINITE d r] show ?thesis by auto
qed

theorem lookupRoutingTable_in_bounds_witness:
  "(0::int) \<le> 1 \<and> 1 < int (length (m_routing_table example_unit))
     \<and> length (m_routing_table example_unit ! nat 1) \<le> length (m_weight_table example_unit)
     \<and> lookupRoutingTable 10000 example_unit 1 {6} 4 \<noteq> Inl OutOfBounds
     \<and> lookupRoutingTable 10000 example_unit 1 {6} 4 \<noteq> Inl OutOfRange"
proof -
  have h: "(0::int) \<le> 1" "1 < int (length (m_routing_table example_unit))"
    "length (m_routing_table example_unit ! nat 1) \<le> length (m_weight_table example_unit)"
    by (simp_all add: example_unit_def)
  from lookupRoutingTable_in_bounds [OF h, of 10000 "{6}" 4] h show ?thesis by blast
qed

subsection \<open>Filling the routing table\<close>

lemma addRoute_loop_length [simp]: "length (addRoute_loop e vs t) = length t"
  by (induction vs arbitrary: t) simp_all

lemma addRoute_loop_nth:
  assumes "distinct vs" "\<forall>v\<in>set vs. v < length t" "i < length t"
  shows "addRoute_loop e vs t ! i = (if i \<in> set vs then t ! i @ [e ! i] else t ! i)"
  using assms
proof (induction vs arbitrary: t)
  case Nil
  then show ?case by simp
next
  case (Cons v vs)
  let ?t = "t[v := t ! v @ [e ! v]]"
  have "addRoute_loop e vs ?t ! i = (if i \<in> set vs then ?t ! i @ [e ! i] else ?t ! i)"
    using Cons.prems by (intro Cons.IH) simp_all
  then show ?case using Cons.prems by (auto simp: nth_list_update)
qed

lemma addRoute_length:
  "length (m_routing_table (addRoute ru e)) = max (length (m_routing_table ru)) (length e)"
  by (simp add: addRoute_def resize_table_def Let_def)

lemma addRoute_nth_entry:
  assumes "v < length e"
  shows "m_routing_table (addRoute ru e) ! v =
           (if v < length (m_routing_table ru) then m_routing_table ru ! v else []) @ [e ! v]"
proof -
  define t where "t = (if length e > length (m_routing_table ru)
               then resize_table (m_routing_table ru) (length e) else m_routing_table ru)"
  have len: "length e \<le> length t" by (simp add: t_def resize_table_def)
  have tv: "t ! v = (if v < length (m_routing_table ru) then m_routing_table ru ! v else [])"
    using assms by (simp add: t_def resize_table_def nth_append)
  have "addRoute_loop e [0..<length e] t ! v =
          (if v \<in> set [0..<length e] then t ! v @ [e ! v] else t ! v)"
    using assms len by (intro addRoute_loop_nth) auto
  then show ?thesis using assms tv by (simp add: addRoute_def t_def [symmetric] Let_def)
qed

lemma addRoute_nth_other:
  assumes "length e \<le> v" "v < length (m_routing_table ru)"
  shows "m_routing_table (addRoute ru e) ! v = m_routing_table ru ! v"
proof -
  have t: "(if length e > length (m_routing_table ru)
               then resize_table (m_routing_table ru) (length e) else m_routing_table ru)
           = m_routing_table ru"
    using assms by simp
  have "addRoute_loop e [0..<length e] (m_routing_table ru) ! v =
          (if v \<in> set [0..<length e] then m_routing_table ru ! v @ [e ! v]
           else m_routing_table ru ! v)"
    using assms by (intro addRoute_loop_nth) auto
  then show ?thesis using assms by (simp add: addRoute_def t Let_def)
qed

lemma addRoutes_same_length:
  assumes "\<forall>e\<in>set es. length e = n"
    and "length (m_routing_table ru) = n"
  shows "length (m_routing_table (addRoutes ru es)) = n
       \<and> (\<forall>v<n. m_routing_table (addRoutes ru es) ! v
                  = m_routing_table ru ! v @ map (\<lambda>e. e ! v) es)"
  using assms
proof (induction es arbitrary: ru)
  case Nil
  then show ?case by (simp add: addRoutes_def)
next
  case (Cons e es)
  have le: "length e = n" using Cons.prems by simp
  have l1: "length (m_routing_table (addRoute ru e)) = n"
    using le Cons.prems(2) by (simp add: addRoute_length)
  have n1: "m_routing_table (addRoute ru e) ! v = m_routing_table ru ! v @ [e ! v]" if "v < n" for v
    using that le Cons.prems(2) by (simp add: addRoute_nth_entry)
  have "length (m_routing_table (addRoutes (addRoute ru e) es)) = n
       \<and> (\<forall>v<n. m_routing_table (addRoutes (addRoute ru e) es) ! v
                  = m_routing_table (addRoute ru e) ! v @ map (\<lambda>e. e ! v) es)"
    using Cons.prems l1 by (intro Cons.IH) simp_all
  then show ?case using n1 by (simp add: addRoutes_def)
qed

lemma two_class_unit_table: "m_routing_table two_class_unit = [[{5}], [{6}]]"
  by (simp add: two_class_unit_def addRoute_def RoutingUnit_new_def resize_table_def
        upt_rec [of 0] upt_rec [of 1] upt_rec [of 2])

text \<open>
  Claim C8, as amended. A call of \<^verbatim>\<open>addRoute\<close> appends one entry to the list of each
  class that the passed vector has an entry for (the classes below its size), leaves the
  lists of the other classes as they are, and grows the table to the larger of its size and
  the vector's. In particular, after a sequence of calls on a fresh routing unit whose
  vectors all have the same size, the table has that many classes, and the list of each
  holds one entry per call, in the order of the calls.
\<close>

theorem addRoute_appends:
  "length (m_routing_table (addRoute ru e)) = max (length (m_routing_table ru)) (length e)
   \<and> (\<forall>v < length e. m_routing_table (addRoute ru e) ! v =
          (if v < length (m_routing_table ru) then m_routing_table ru ! v else []) @ [e ! v])
   \<and> (\<forall>v. length e \<le> v \<and> v < length (m_routing_table ru) \<longrightarrow>
          m_routing_table (addRoute ru e) ! v = m_routing_table ru ! v)
   \<and> ((\<forall>e'\<in>set es. length e' = length e) \<longrightarrow>
        length (m_routing_table (addRoutes (RoutingUnit_new router) (e # es))) = length e
        \<and> (\<forall>v < length e.
              m_routing_table (addRoutes (RoutingUnit_new router) (e # es)) ! v
                = map (\<lambda>e'. e' ! v) (e # es)
              \<and> length (m_routing_table (addRoutes (RoutingUnit_new router) (e # es)) ! v)
                = length (e # es)))"
proof -
  have seq: "length (m_routing_table (addRoutes (RoutingUnit_new router) (e # es))) = length e
        \<and> (\<forall>v < length e.
              m_routing_table (addRoutes (RoutingUnit_new router) (e # es)) ! v
                = map (\<lambda>e'. e' ! v) (e # es)
              \<and> length (m_routing_table (addRoutes (RoutingUnit_new router) (e # es)) ! v)
                = length (e # es))"
    if same: "\<forall>e'\<in>set es. length e' = length e"
  proof -
    define ru1 where "ru1 = addRoute (RoutingUnit_new router) e"
    have l1: "length (m_routing_table ru1) = length e"
      by (simp add: ru1_def addRoute_length RoutingUnit_new_def)
    have n1: "m_routing_table ru1 ! v = [e ! v]" if "v < length e" for v
      using that by (simp add: ru1_def addRoute_nth_entry RoutingUnit_new_def)
    have unf: "addRoutes (RoutingUnit_new router) (e # es) = addRoutes ru1 es"
      by (simp add: addRoutes_def ru1_def)
    from addRoutes_same_length [OF same l1]
    show ?thesis unfolding unf using n1 by simp
  qed
  show ?thesis
    using addRoute_length [of ru e] addRoute_nth_entry [of _ e ru] addRoute_nth_other [of e _ ru] seq
    by blast
qed

theorem addRoute_appends_witness:
  "0 < length [{7::nat}]
   \<and> (length [{7::nat}] \<le> 1 \<and> 1 < length (m_routing_table two_class_unit))
   \<and> length [{8::nat}] = length [{7::nat}]
   \<and> m_routing_table (addRoute two_class_unit [{7}]) ! 0 = [{5}, {7}]
   \<and> m_routing_table (addRoute two_class_unit [{7}]) ! 1 = [{6}]
   \<and> m_routing_table (addRoutes (RoutingUnit_new example_router) [[{7}], [{8}]]) ! 0 = [{7}, {8}]"
proof -
  have h: "\<forall>e'\<in>set [[{8::nat}]]. length e' = length [{7::nat}]" by simp
  from addRoute_appends [of two_class_unit "[{7}]" "[[{8}]]" example_router] h
  show ?thesis by (simp add: two_class_unit_table)
qed

text \<open>
  The table holds two classes and the call passes an entry for class 0 only: the list of
  class 1 gets nothing, and after two calls it holds one entry.
\<close>

theorem addRoute_short_entry_counterexample:
  "m_routing_table two_class_unit = [[{5}], [{6}]]
   \<and> m_routing_table short_entry_unit = [[{5}, {7}], [{6}]]"
  by (simp add: two_class_unit_table short_entry_unit_def addRoute_def
        upt_rec [of 0] upt_rec [of 1])

subsection \<open>The dispatcher\<close>

text \<open>
  Claim C5. When the destination router of the query is this router, \<^verbatim>\<open>outportCompute\<close>
  returns what \<^verbatim>\<open>lookupRoutingTable\<close> returns for the class and the destination set of the
  query, whatever the configured routing algorithm.
\<close>

theorem outportCompute_local:
  assumes "dest_router route = get_id (m_router ru)"
  shows "outportCompute INFINITE (with_algorithm ru alg) route inport inport_dirn rnd =
           map_sum id (\<lambda>outport. (outport, with_algorithm ru alg))
             (lookupRoutingTable INFINITE ru (vnet route) (net_dest route) (rnd 0))"
proof -
  have "lookupRoutingTable INFINITE (ru\<lparr>m_router := (m_router ru)\<lparr>getRoutingAlgorithm := alg\<rparr>\<rparr>) vn d r =
        lookupRoutingTable INFINITE ru vn d r" for vn d r
    by (simp add: lookupRoutingTable_def Let_def cong: sum.case_cong if_cong)
  then show ?thesis
    using assms by (simp add: outportCompute_def with_algorithm_def)
qed

theorem outportCompute_local_witness:
  "dest_router \<lparr>vnet = 0, net_dest = {5}, dest_router = 0\<rparr> = get_id (m_router example_unit)
   \<and> outportCompute 10000 (with_algorithm example_unit XY)
         \<lparr>vnet = 0, net_dest = {5}, dest_router = 0\<rparr> 0 ''East'' (\<lambda>k. 7)
       = Inr (1, with_algorithm example_unit XY)"
proof -
  have h: "dest_router \<lparr>vnet = 0, net_dest = {5}, dest_router = 0\<rparr> = get_id (m_router example_unit)"
    by (simp add: example_unit_def example_router_def)
  from outportCompute_local [OF h, of 10000 XY 0 "''East''" "\<lambda>k. 7"] h
  show ?thesis by (simp add: lookupRoutingTable_example)
qed

subsection \<open>Mesh routing\<close>

lemma row_major_smod:
  assumes "0 \<le> x" "x < n" "0 \<le> (y::int)"
  shows "(y * n + x) smod n = x"
proof -
  have "0 \<le> y * n + x" using assms by simp
  then have "(y * n + x) smod n = (y * n + x) mod n"
    using assms by (intro smod_nonneg) simp_all
  then show ?thesis using assms by simp
qed

lemma row_major_sdiv:
  assumes "0 \<le> x" "x < n" "0 \<le> (y::int)"
  shows "(y * n + x) sdiv n = y"
proof -
  have "0 \<le> y * n + x" using assms by simp
  then have "(y * n + x) sdiv n = (y * n + x) div n"
    using assms by (intro sdiv_nonneg) simp_all
  then show ?thesis using assms by simp
qed

lemma outports_subscript_registered:
  "m_outports_dirn2idx ru dirn = Some idx \<Longrightarrow> outports_subscript ru dirn = (idx, ru)"
  by (simp add: outports_subscript_def)

lemma outportComputeXY_coords:
  assumes "0 < getNumRows (m_router ru)" "0 < getNumCols (m_router ru)"
    and "get_id (m_router ru) = my_y * getNumCols (m_router ru) + my_x"
    and "0 \<le> my_x" "my_x < getNumCols (m_router ru)" "0 \<le> my_y"
    and "dest_router route = dest_y * getNumCols (m_router ru) + dest_x"
    and "0 \<le> dest_x" "dest_x < getNumCols (m_router ru)" "0 \<le> dest_y"
  shows "outportComputeXY ru route inport inport_dirn =
     (if dest_x = my_x \<and> dest_y = my_y then Inl AssertionFailed
      else if xy_inport_allowed (xy_direction my_x my_y dest_x dest_y) inport_dirn
      then Inr (outports_subscript ru (xy_direction my_x my_y dest_x dest_y))
      else Inl AssertionFailed)"
proof -
  have c: "get_id (m_router ru) smod getNumCols (m_router ru) = my_x"
      "get_id (m_router ru) sdiv getNumCols (m_router ru) = my_y"
      "dest_router route smod getNumCols (m_router ru) = dest_x"
      "dest_router route sdiv getNumCols (m_router ru) = dest_y"
    using assms by (simp_all add: row_major_smod row_major_sdiv)
  show ?thesis
    unfolding outportComputeXY_def Let_def c
    using assms(1,2) by (auto simp: xy_direction_def xy_inport_allowed_def)
qed

text \<open>
  Claim C6, as amended. Let the two router ids be \<open>y * numCols + x\<close> for coordinates on the
  mesh. When the coordinates differ, the arrival direction passes the assertion for the
  chosen direction and that direction is registered, \<^verbatim>\<open>outportComputeXY\<close> returns the port
  registered for East or West by the sign of the X delta when that is not zero, whatever the
  Y delta, and for North or South by the sign of the Y delta otherwise. When the arrival
  direction does not pass the assertion, or when both deltas are zero, the call is aborted.
\<close>

theorem outportComputeXY_dor:
  assumes "0 < getNumRows (m_router ru)" "0 < getNumCols (m_router ru)"
    and "get_id (m_router ru) = my_y * getNumCols (m_router ru) + my_x"
    and "0 \<le> my_x" "my_x < getNumCols (m_router ru)" "0 \<le> my_y"
    and "dest_router route = dest_y * getNumCols (m_router ru) + dest_x"
    and "0 \<le> dest_x" "dest_x < getNumCols (m_router ru)" "0 \<le> dest_y"
  shows "((my_x, my_y) \<noteq> (dest_x, dest_y)
            \<and> xy_inport_allowed (xy_direction my_x my_y dest_x dest_y) inport_dirn
            \<and> m_outports_dirn2idx ru (xy_direction my_x my_y dest_x dest_y) = Some idx
          \<longrightarrow> outportComputeXY ru route inport inport_dirn = Inr (idx, ru))
       \<and> ((my_x, my_y) \<noteq> (dest_x, dest_y)
            \<and> \<not> xy_inport_allowed (xy_direction my_x my_y dest_x dest_y) inport_dirn
          \<longrightarrow> outportComputeXY ru route inport inport_dirn = Inl AssertionFailed)
       \<and> ((my_x, my_y) = (dest_x, dest_y)
          \<longrightarrow> outportComputeXY ru route inport inport_dirn = Inl AssertionFailed)"
  unfolding outportComputeXY_coords [OF assms]
  by (auto simp: outports_subscript_registered)

lemma mesh_unit_fields:
  "getNumRows (m_router mesh_unit) = 4" "getNumCols (m_router mesh_unit) = 4"
  "get_id (m_router mesh_unit) = 0"
  "m_outports_dirn2idx mesh_unit ''East'' = Some 1"
  "m_outports_dirn2idx mesh_unit ''North'' = Some 2"
  by (simp_all add: mesh_unit_def with_algorithm_def example_unit_def example_router_def)

theorem outportComputeXY_dor_witness:
  "outportComputeXY mesh_unit \<lparr>vnet = 0, net_dest = {5}, dest_router = 6\<rparr> 0 ''Local''
     = Inr (1, mesh_unit)
   \<and> outportComputeXY mesh_unit \<lparr>vnet = 0, net_dest = {5}, dest_router = 8\<rparr> 0 ''North''
     = Inl AssertionFailed
   \<and> outportComputeXY mesh_unit \<lparr>vnet = 0, net_dest = {5}, dest_router = 0\<rparr> 0 ''Local''
     = Inl AssertionFailed"
proof -
  have east: "xy_inport_allowed (xy_direction 0 0 2 1) ''Local''"
    "m_outports_dirn2idx mesh_unit (xy_direction 0 0 2 1) = Some 1"
    by (simp_all add: xy_direction_def xy_inport_allowed_def mesh_unit_fields)
  have north: "\<not> xy_inport_allowed (xy_direction 0 0 0 2) ''North''"
    by (simp add: xy_direction_def xy_inport_allowed_def)
  have a: "outportComputeXY mesh_unit \<lparr>vnet = 0, net_dest = {5}, dest_router = 6\<rparr> 0 ''Local''
     = Inr (1, mesh_unit)"
    using outportComputeXY_dor [of mesh_unit 0 0 "\<lparr>vnet = 0, net_dest = {5}, dest_router = 6\<rparr>"
        1 2 "''Local''" 1 0] east
    by (simp add: mesh_unit_fields)
  have b: "outportComputeXY mesh_unit \<lparr>vnet = 0, net_dest = {5}, dest_router = 8\<rparr> 0 ''North''
     = Inl AssertionFailed"
    using outportComputeXY_dor [of mesh_unit 0 0 "\<lparr>vnet = 0, net_dest = {5}, dest_router = 8\<rparr>"
        2 0 "''North''" 0 0] north
    by (simp add: mesh_unit_fields)
  have c: "outportComputeXY mesh_unit \<lparr>vnet = 0, net_dest = {5}, dest_router = 0\<rparr> 0 ''Local''
     = Inl AssertionFailed"
    using outportComputeXY_dor [of mesh_unit 0 0 "\<lparr>vnet = 0, net_dest = {5}, dest_router = 0\<rparr>"
        0 0 "''Local''" 0 0]
    by (simp add: mesh_unit_fields)
  from a b c show ?thesis by simp
qed

text \<open>
  Two inputs with distinct coordinates. Router 0 routes to router 1, east of it, for a
  packet that arrived from the East: the assertion fails and no direction is chosen. Router
  0 routes to router 1 with no direction registered: \<^verbatim>\<open>operator[]\<close> of the map gives 0 for
  East, and the call returns port 0 although East is not registered.
\<close>

theorem outportComputeXY_counterexample:
  "outportComputeXY mesh_unit \<lparr>vnet = 0, net_dest = {5}, dest_router = 1\<rparr> 0 ''East''
     = Inl AssertionFailed
   \<and> m_outports_dirn2idx bare_mesh_unit ''East'' = None
   \<and> map_sum id fst
        (outportComputeXY bare_mesh_unit \<lparr>vnet = 0, net_dest = {5}, dest_router = 1\<rparr> 0 ''Local'')
     = Inr 0"
  by (simp add: outportComputeXY_def bare_mesh_unit_def mesh_unit_def with_algorithm_def
        example_unit_def example_router_def outports_subscript_def signed_divide_int_def
        smod_int_alt_def)

subsection \<open>Torus routing\<close>

lemma torus_distance_axis:
  assumes "0 \<le> cur" "cur < dim" "0 \<le> dest" "dest < dim" "2 * dim - 1 \<le> INT_MAX"
  shows "torus_distance cur dest dim = Inr (axis_distance cur dest dim, axis_forward cur dest dim)"
proof -
  have r: "int_range (dest - cur)" "int_range (dest - cur + dim)"
      "int_range (cur - dest)" "int_range (cur - dest + dim)"
    using assms by (simp_all add: int_range_def INT_MIN_def INT_MAX_def)
  have nz: "dim \<noteq> 0" using assms by simp
  have rq1: "int_range ((dest - cur + dim) sdiv dim)"
    using assms by (intro int_range_sdiv) simp_all
  have rq2: "int_range ((cur - dest + dim) sdiv dim)"
    using assms by (intro int_range_sdiv) simp_all
  have f: "(dest - cur + dim) smod dim = forward_dist cur dest dim"
    unfolding forward_dist_def using assms by (intro smod_nonneg) simp_all
  have b: "(cur - dest + dim) smod dim = backward_dist cur dest dim"
    unfolding backward_dist_def using assms by (intro smod_nonneg) simp_all
  show ?thesis
    unfolding torus_distance_def
    by (simp add: c_int_ok r c_mod_ok [OF nz rq1] c_mod_ok [OF nz rq2] f b
          axis_distance_def axis_forward_def min_def)
qed

lemma axis_distance_nonneg: "0 < dim \<Longrightarrow> 0 \<le> axis_distance cur dest dim"
  by (simp add: axis_distance_def forward_dist_def backward_dist_def)

lemma torus_row_major:
  assumes "0 < X" "0 < Y" "0 \<le> x" "x < X" "0 \<le> y" "y < Y" "0 \<le> (z::int)"
  shows "(z * (X * Y) + y * X + x) sdiv (X * Y) = z"
    and "(z * (X * Y) + y * X + x) smod (X * Y) = y * X + x"
proof -
  have "y + 1 \<le> Y" using assms by simp
  then have "(y + 1) * X \<le> Y * X" using assms(1) by (intro mult_right_mono) simp_all
  then have lt: "y * X + x < X * Y" using assms by (simp add: algebra_simps)
  have ge: "0 \<le> y * X + x" using assms by simp
  have "(z * (X * Y) + (y * X + x)) sdiv (X * Y) = z"
    using ge lt assms(7) by (rule row_major_sdiv)
  then show "(z * (X * Y) + y * X + x) sdiv (X * Y) = z" by (simp add: add.assoc)
  have "(z * (X * Y) + (y * X + x)) smod (X * Y) = y * X + x"
    using ge lt assms(7) by (rule row_major_smod)
  then show "(z * (X * Y) + y * X + x) smod (X * Y) = y * X + x" by (simp add: add.assoc)
qed

lemma torus_distances_coords:
  assumes "getTorusX (m_router ru) = X" "getTorusY (m_router ru) = Y" "getTorusZ (m_router ru) = Z"
    and "0 < X" "0 < Y" "0 < Z"
    and "get_id (m_router ru) = cz * (X * Y) + cy * X + cx"
    and "0 \<le> cx" "cx < X" "0 \<le> cy" "cy < Y" "0 \<le> cz" "cz < Z"
    and "dest_router route = dz * (X * Y) + dy * X + dx"
    and "0 \<le> dx" "dx < X" "0 \<le> dy" "dy < Y" "0 \<le> dz" "dz < Z"
    and "X * Y * Z \<le> INT_MAX"
    and "2 * X - 1 \<le> INT_MAX" "2 * Y - 1 \<le> INT_MAX" "2 * Z - 1 \<le> INT_MAX"
  shows "torus_distances ru route =
           Inr ((axis_distance cx dx X, axis_forward cx dx X),
                (axis_distance cy dy Y, axis_forward cy dy Y),
                (axis_distance cz dz Z, axis_forward cz dz Z))"
proof -
  have "X * Y * 1 \<le> X * Y * Z" using assms(4-6) by (intro mult_left_mono) simp_all
  then have plane_le: "X * Y \<le> INT_MAX" using assms(21) by simp
  have plane_pos: "0 < X * Y" using assms(4,5) by simp
  have plane: "c_int (X * Y) = Inr (X * Y)"
    using plane_pos plane_le by (intro c_int_ok int_range_nonneg) simp_all
  have nz: "X * Y \<noteq> 0" "X \<noteq> 0" using assms(4,5) by simp_all
  have my: "get_id (m_router ru) sdiv (X * Y) = cz"
      "get_id (m_router ru) smod (X * Y) = cy * X + cx"
    unfolding assms(7) using assms(4,5,8-12) by (simp_all add: torus_row_major)
  have de: "dest_router route sdiv (X * Y) = dz"
      "dest_router route smod (X * Y) = dy * X + dx"
    unfolding assms(14) using assms(4,5,15-19) by (simp_all add: torus_row_major)
  have xy: "(cy * X + cx) sdiv X = cy" "(cy * X + cx) smod X = cx"
      "(dy * X + dx) sdiv X = dy" "(dy * X + dx) smod X = dx"
    using assms by (simp_all add: row_major_sdiv row_major_smod)
  have rz: "int_range cz" "int_range dz"
    using assms(6,12,13,19,20,24) by (simp_all add: int_range_def INT_MIN_def)
  have ry: "int_range cy" "int_range dy"
    using assms(5,10,11,17,18,23) by (simp_all add: int_range_def INT_MIN_def)
  have my_z: "c_div (get_id (m_router ru)) (X * Y) = Inr cz"
    using c_div_ok [OF nz(1), of "get_id (m_router ru)"] rz(1) by (simp add: my)
  have my_r: "c_mod (get_id (m_router ru)) (X * Y) = Inr (cy * X + cx)"
    using c_mod_ok [OF nz(1), of "get_id (m_router ru)"] rz(1) by (simp add: my)
  have dest_z: "c_div (dest_router route) (X * Y) = Inr dz"
    using c_div_ok [OF nz(1), of "dest_router route"] rz(2) by (simp add: de)
  have dest_r: "c_mod (dest_router route) (X * Y) = Inr (dy * X + dx)"
    using c_mod_ok [OF nz(1), of "dest_router route"] rz(2) by (simp add: de)
  have my_y: "c_div (cy * X + cx) X = Inr cy" and my_x: "c_mod (cy * X + cx) X = Inr cx"
    using c_div_ok [OF nz(2), of "cy * X + cx"] c_mod_ok [OF nz(2), of "cy * X + cx"] ry(1)
    by (simp_all add: xy)
  have dest_y: "c_div (dy * X + dx) X = Inr dy" and dest_x: "c_mod (dy * X + dx) X = Inr dx"
    using c_div_ok [OF nz(2), of "dy * X + dx"] c_mod_ok [OF nz(2), of "dy * X + dx"] ry(2)
    by (simp_all add: xy)
  have tx: "torus_distance cx dx X = Inr (axis_distance cx dx X, axis_forward cx dx X)"
    using assms(8,9,15,16,22) by (rule torus_distance_axis)
  have ty: "torus_distance cy dy Y = Inr (axis_distance cy dy Y, axis_forward cy dy Y)"
    using assms(10,11,17,18,23) by (rule torus_distance_axis)
  have tz: "torus_distance cz dz Z = Inr (axis_distance cz dz Z, axis_forward cz dz Z)"
    using assms(12,13,19,20,24) by (rule torus_distance_axis)
  show ?thesis
    unfolding torus_distances_def Let_def assms(1-3)
    by (simp add: plane my_z my_r my_y my_x dest_z dest_r dest_y dest_x tx ty tz)
qed

text \<open>
  Where the product of the first two dimensions is outside the range of \<^verbatim>\<open>int\<close>, the first
  statement of the routers that uses it is a signed overflow.
\<close>

lemma torus_distances_overflow:
  assumes "getTorusX (m_router ru) = 65536" "getTorusY (m_router ru) = 65536"
  shows "torus_distances ru route = Inl SignedOverflow"
  by (simp add: torus_distances_def assms c_int_def int_range_def INT_MAX_def)

text \<open>
  Claim C2. For two routers of an \<open>X\<close> by \<open>Y\<close> by \<open>Z\<close> torus, given by their coordinates,
  where the router ids fit \<^verbatim>\<open>int\<close> (\<open>X * Y * Z\<close> is at most \<^verbatim>\<open>INT_MAX\<close>) and twice each
  dimension less one does too (so that \<open>dest - cur + dim\<close> cannot overflow),
  \<^verbatim>\<open>outportComputeTorus3D\<close> computes on each axis the smaller of the forward and the backward
  distance, takes the forward direction when they are equal, and routes along the first axis
  in the order X, Y, Z whose distance is not zero (it panics when there is none, or when the
  direction is not registered). On the 4 by 4 by 1 torus, from router 0 to router 10, the
  forward and backward distances on X are both 2 and the direction is East.
\<close>

theorem outportComputeTorus3D_dor:
  assumes "getTorusX (m_router ru) = X" "getTorusY (m_router ru) = Y" "getTorusZ (m_router ru) = Z"
    and "0 < X" "0 < Y" "0 < Z"
    and "get_id (m_router ru) = cz * (X * Y) + cy * X + cx"
    and "0 \<le> cx" "cx < X" "0 \<le> cy" "cy < Y" "0 \<le> cz" "cz < Z"
    and "dest_router route = dz * (X * Y) + dy * X + dx"
    and "0 \<le> dx" "dx < X" "0 \<le> dy" "dy < Y" "0 \<le> dz" "dz < Z"
    and "X * Y * Z \<le> INT_MAX"
    and "2 * X - 1 \<le> INT_MAX" "2 * Y - 1 \<le> INT_MAX" "2 * Z - 1 \<le> INT_MAX"
  shows "torus_distances ru route =
           Inr ((axis_distance cx dx X, axis_forward cx dx X),
                (axis_distance cy dy Y, axis_forward cy dy Y),
                (axis_distance cz dz Z, axis_forward cz dz Z))
       \<and> outportComputeTorus3D ru route inport inport_dirn =
           (case dor_direction (cx, cy, cz) (dx, dy, dz) (X, Y, Z) of
              None \<Rightarrow> Inl Panic
            | Some outport_dirn \<Rightarrow>
                (case m_outports_dirn2idx ru outport_dirn of
                   None \<Rightarrow> Inl Panic
                 | Some idx \<Rightarrow> Inr idx))
       \<and> forward_dist 0 2 4 = 2 \<and> backward_dist 0 2 4 = 2
       \<and> torus_distance 0 2 4 = Inr (2, True)
       \<and> dor_direction (0, 0, 0) (2, 2, 0) (4, 4, 1) = Some ''East''"
proof -
  note td = torus_distances_coords [OF assms]
  have pos: "0 < axis_distance cx dx X \<longleftrightarrow> axis_distance cx dx X \<noteq> 0"
      "0 < axis_distance cy dy Y \<longleftrightarrow> axis_distance cy dy Y \<noteq> 0"
      "0 < axis_distance cz dz Z \<longleftrightarrow> axis_distance cz dz Z \<noteq> 0"
    using axis_distance_nonneg [OF assms(4), of cx dx] axis_distance_nonneg [OF assms(5), of cy dy]
      axis_distance_nonneg [OF assms(6), of cz dz] by auto
  have route: "outportComputeTorus3D ru route inport inport_dirn =
           (case dor_direction (cx, cy, cz) (dx, dy, dz) (X, Y, Z) of
              None \<Rightarrow> Inl Panic
            | Some outport_dirn \<Rightarrow>
                (case m_outports_dirn2idx ru outport_dirn of
                   None \<Rightarrow> Inl Panic
                 | Some idx \<Rightarrow> Inr idx))"
    unfolding outportComputeTorus3D_def td by (simp add: pos dor_direction_def)
  have ex: "forward_dist 0 2 4 = 2" "backward_dist 0 2 4 = 2"
    by (simp_all add: forward_dist_def backward_dist_def)
  have ex2: "torus_distance 0 2 4 = Inr (2, True)"
    using torus_distance_axis [of 0 4 2]
    by (simp add: axis_distance_def axis_forward_def ex INT_MAX_def)
  have ex3: "dor_direction (0, 0, 0) (2, 2, 0) (4, 4, 1) = Some ''East''"
    by (simp add: dor_direction_def axis_distance_def axis_forward_def ex)
  from td route ex ex2 ex3 show ?thesis by simp
qed

lemma torus_unit_fields:
  "getTorusX (m_router torus_unit) = 4" "getTorusY (m_router torus_unit) = 4"
  "getTorusZ (m_router torus_unit) = 1" "get_id (m_router torus_unit) = 0"
  "m_outports_dirn2idx torus_unit ''East'' = Some 1"
  "m_outports_dirn2idx torus_unit ''North'' = Some 2"
  by (simp_all add: torus_unit_def with_algorithm_def example_unit_def example_router_def)

theorem outportComputeTorus3D_dor_witness:
  "outportComputeTorus3D torus_unit \<lparr>vnet = 0, net_dest = {5}, dest_router = 10\<rparr> 0 ''Local''
     = Inr 1
   \<and> m_outports_dirn2idx torus_unit ''East'' = Some 1"
  using outportComputeTorus3D_dor [of torus_unit 4 4 1 0 0 0
      "\<lparr>vnet = 0, net_dest = {5}, dest_router = 10\<rparr>" 0 2 2 0 "''Local''"]
  by (simp add: torus_unit_fields INT_MAX_def)

subsection \<open>Adaptive torus routing\<close>

lemma list_ex_nested:
  "list_ex (\<lambda>x. list_ex (\<lambda>y. P (g x y)) ys) xs \<longleftrightarrow>
     (\<exists>v\<in>set (concat (map (\<lambda>x. map (g x) ys) xs)). P v)"
  by (auto simp: list_ex_iff)

lemma checkAdaptiveVCAvailability_char:
  assumes "getOutputUnit (m_router ru) outport_idx = Inr output_unit"
    and "getVcsPerVnet output_unit \<noteq> 0"
  shows "checkAdaptiveVCAvailability ru outport_idx =
           Inr (\<exists>vc\<in>set (adaptive_vc_ids ru output_unit). is_vc_idle output_unit vc)"
proof -
  have "list_ex (\<lambda>vn. list_ex (\<lambda>vc_offset.
            is_vc_idle output_unit (vn * getVcsPerVnet output_unit + vc_offset))
          [1..getVcsPerVnet output_unit - 1])
        [0..get_num_vcs (m_router ru) sdiv getVcsPerVnet output_unit - 1]
      \<longleftrightarrow> (\<exists>vc\<in>set (adaptive_vc_ids ru output_unit). is_vc_idle output_unit vc)"
    unfolding adaptive_vc_ids_def
    by (rule list_ex_nested [of "is_vc_idle output_unit"
          "\<lambda>vn vc_offset. vn * getVcsPerVnet output_unit + vc_offset"])
  then show ?thesis
    unfolding checkAdaptiveVCAvailability_def Let_def using assms by simp
qed

lemma fold_count_vc:
  "fold (\<lambda>x. count_vc ou (g x)) xs (t, i) =
     (t + int (length xs), i + int (length (filter (is_vc_idle ou) (map g xs))))"
  by (induction xs arbitrary: t i) (simp_all add: count_vc_def)

lemma fold_fold_count_vc:
  "fold (\<lambda>vn. fold (\<lambda>off. count_vc ou (g vn off)) offs) vns (t, i) =
     (t + int (length (concat (map (\<lambda>vn. map (g vn) offs) vns))),
      i + int (length (filter (is_vc_idle ou) (concat (map (\<lambda>vn. map (g vn) offs) vns)))))"
  by (induction vns arbitrary: t i) (simp_all add: fold_count_vc)

lemma getDirectionCongestionScore_char:
  assumes "getOutputUnit (m_router ru) outport_idx = Inr output_unit"
    and "getVcsPerVnet output_unit \<noteq> 0"
  shows "getDirectionCongestionScore ru outport_idx direction r =
           Inr ((if adaptive_vc_ids ru output_unit = [] then 100
                 else int (length (adaptive_vc_ids ru output_unit))
                      - int (length (filter (is_vc_idle output_unit)
                                       (adaptive_vc_ids ru output_unit))))
                + int (r mod 3))"
proof -
  have sm: "int r smod 3 = int (r mod 3)"
    by (simp add: smod_nonneg zmod_int)
  have fld: "fold (\<lambda>vn. fold (\<lambda>vc_offset.
                 count_vc output_unit (vn * getVcsPerVnet output_unit + vc_offset))
               [1..getVcsPerVnet output_unit - 1])
            [0..get_num_vcs (m_router ru) sdiv getVcsPerVnet output_unit - 1] (0, 0) =
        (int (length (adaptive_vc_ids ru output_unit)),
         int (length (filter (is_vc_idle output_unit) (adaptive_vc_ids ru output_unit))))"
    unfolding adaptive_vc_ids_def
    using fold_fold_count_vc [of output_unit "\<lambda>vn off. vn * getVcsPerVnet output_unit + off"
        _ _ 0 0]
    by simp
  show ?thesis
    unfolding getDirectionCongestionScore_def Let_def
    using assms by (simp add: fld sm)
qed

lemma check_false:
  assumes "port_ok ru p" "idle_adaptive_vcs ru p = []"
  shows "checkAdaptiveVCAvailability ru p = Inr False"
proof -
  from assms(1) obtain ou where ou: "getOutputUnit (m_router ru) p = Inr ou"
    "getVcsPerVnet ou \<noteq> 0"
    by (auto simp: port_ok_def split: sum.splits)
  from assms(2) ou(1) have "\<not> (\<exists>vc\<in>set (adaptive_vc_ids ru ou). is_vc_idle ou vc)"
    by (simp add: idle_adaptive_vcs_def filter_empty_conv)
  then show ?thesis using checkAdaptiveVCAvailability_char [OF ou] by simp
qed

lemma check_true:
  assumes "port_ok ru p" "idle_adaptive_vcs ru p \<noteq> []"
  shows "checkAdaptiveVCAvailability ru p = Inr True"
proof -
  from assms(1) obtain ou where ou: "getOutputUnit (m_router ru) p = Inr ou"
    "getVcsPerVnet ou \<noteq> 0"
    by (auto simp: port_ok_def split: sum.splits)
  from assms(2) ou(1) have "\<exists>vc\<in>set (adaptive_vc_ids ru ou). is_vc_idle ou vc"
    by (simp add: idle_adaptive_vcs_def filter_empty_conv)
  then show ?thesis using checkAdaptiveVCAvailability_char [OF ou] by simp
qed

lemma adaptive_loop_no_adaptive:
  assumes "\<forall>d\<in>set ds. \<forall>p. m_outports_dirn2idx ru d = Some p \<longrightarrow>
             port_ok ru p \<and> idle_adaptive_vcs ru p = []"
  shows "adaptive_loop ru rnd ds st k = Inr st"
  using assms
proof (induction ds)
  case Nil
  then show ?case by simp
next
  case (Cons d ds)
  then have IH: "adaptive_loop ru rnd ds st k = Inr st" by simp
  show ?case
  proof (cases "m_outports_dirn2idx ru d")
    case None
    then show ?thesis using IH by simp
  next
    case (Some p)
    with Cons.prems have "checkAdaptiveVCAvailability ru p = Inr False"
      by (intro check_false) simp_all
    with Some IH show ?thesis by simp
  qed
qed

lemma length_concat_map_map:
  "length (concat (map (\<lambda>x. map (g x) ys) xs)) = length xs * length ys"
  by (induction xs) simp_all

lemma length_adaptive_vc_ids:
  assumes "adaptive_vc_ids ru ou \<noteq> []"
  shows "int (length (adaptive_vc_ids ru ou)) < get_num_vcs (m_router ru)"
proof -
  define c where "c = getVcsPerVnet ou"
  define n where "n = get_num_vcs (m_router ru)"
  define nv where "nv = n sdiv c"
  have len: "length (adaptive_vc_ids ru ou) = nat nv * nat (c - 1)"
    by (simp add: adaptive_vc_ids_def length_concat_map_map c_def n_def nv_def)
  from assms have "0 < length (adaptive_vc_ids ru ou)" by simp
  then have "0 < nat nv * nat (c - 1)" by (simp only: len)
  then have "0 < nat nv" "0 < nat (c - 1)" by simp_all
  then have pos: "0 < nv" "1 < c" by simp_all
  have npos: "0 < n"
  proof (rule ccontr)
    assume "\<not> 0 < n"
    then have "n sdiv c \<le> 0" using pos(2)
      by (simp add: signed_divide_int_def sgn_if zero_le_mult_iff mult_le_0_iff pos_imp_zdiv_nonneg_iff)
    with pos(1) show False by (simp add: nv_def)
  qed
  then have nv: "nv = n div c" using pos(2) by (simp add: nv_def sdiv_nonneg)
  have "0 \<le> n mod c" using pos(2) by simp
  with div_mult_mod_eq [of n c] have "nv * c \<le> n" unfolding nv by linarith
  moreover have "int (nat nv * nat (c - 1)) = nv * c - nv"
    using pos by (simp add: algebra_simps)
  ultimately show ?thesis using pos(1) by (simp add: len n_def)
qed


lemma score_below_INT_MAX:
  assumes "port_ok ru p" "idle_adaptive_vcs ru p \<noteq> []"
    and "get_num_vcs (m_router ru) < INT_MAX"
  shows "\<exists>s. getDirectionCongestionScore ru p d r = Inr s \<and> s < INT_MAX"
proof -
  from assms(1) obtain ou where ou: "getOutputUnit (m_router ru) p = Inr ou"
    "getVcsPerVnet ou \<noteq> 0"
    by (auto simp: port_ok_def split: sum.splits)
  define ids where "ids = adaptive_vc_ids ru ou"
  from assms(2) ou(1) have idle: "filter (is_vc_idle ou) ids \<noteq> []"
    by (simp add: idle_adaptive_vcs_def ids_def)
  then have ne: "ids \<noteq> []" by auto
  from idle have one: "1 \<le> int (length (filter (is_vc_idle ou) ids))"
    by (cases "filter (is_vc_idle ou) ids") simp_all
  have lt: "int (length ids) < get_num_vcs (m_router ru)"
    using ne unfolding ids_def by (rule length_adaptive_vc_ids)
  have "int (r mod 3) \<le> 2" by simp
  then have "int (length ids) - int (length (filter (is_vc_idle ou) ids)) + int (r mod 3) < INT_MAX"
    using one lt assms(3) by linarith
  then show ?thesis
    using getDirectionCongestionScore_char [OF ou, of d r] ne by (simp add: ids_def)
qed

lemma adaptive_loop_keep:
  assumes "m_outports_dirn2idx ru d = Some p" "port_ok ru p" "idle_adaptive_vcs ru p \<noteq> []"
    and "get_num_vcs (m_router ru) < INT_MAX"
    and "\<forall>d'\<in>set ds. d' \<noteq> d \<longrightarrow>
           (\<forall>p'. m_outports_dirn2idx ru d' = Some p' \<longrightarrow>
              port_ok ru p' \<and> idle_adaptive_vcs ru p' = [])"
  shows "\<exists>s'. adaptive_loop ru rnd ds (s, d, True) k = Inr (s', d, True)"
  using assms(5)
proof (induction ds arbitrary: s k)
  case Nil
  then show ?case by simp
next
  case (Cons d' ds)
  then have rest: "\<And>s k. \<exists>s'. adaptive_loop ru rnd ds (s, d, True) k = Inr (s', d, True)"
    by simp
  show ?case
  proof (cases "d' = d")
    case True
    from score_below_INT_MAX [OF assms(2,3,4), of d "rnd k"] obtain sc where
      sc: "getDirectionCongestionScore ru p d (rnd k) = Inr sc" by blast
    have chk: "checkAdaptiveVCAvailability ru p = Inr True"
      using assms(2,3) by (rule check_true)
    show ?thesis
      using True assms(1) chk sc rest [of sc "Suc k"] rest [of s "Suc k"] by simp
  next
    case False
    show ?thesis
    proof (cases "m_outports_dirn2idx ru d'")
      case None
      then show ?thesis using rest [of s k] by simp
    next
      case (Some p')
      with Cons.prems False have "checkAdaptiveVCAvailability ru p' = Inr False"
        by (intro check_false) simp_all
      with Some show ?thesis using rest [of s k] by simp
    qed
  qed
qed

lemma adaptive_loop_find:
  assumes "m_outports_dirn2idx ru d = Some p" "port_ok ru p" "idle_adaptive_vcs ru p \<noteq> []"
    and "get_num_vcs (m_router ru) < INT_MAX"
    and "\<forall>d'\<in>set ds. d' \<noteq> d \<longrightarrow>
           (\<forall>p'. m_outports_dirn2idx ru d' = Some p' \<longrightarrow>
              port_ok ru p' \<and> idle_adaptive_vcs ru p' = [])"
    and "d \<in> set ds"
  shows "\<exists>s'. adaptive_loop ru rnd ds (INT_MAX, u, False) k = Inr (s', d, True)"
  using assms(5,6)
proof (induction ds arbitrary: k)
  case Nil
  then show ?case by simp
next
  case (Cons d' ds)
  have others: "\<forall>d'\<in>set ds. d' \<noteq> d \<longrightarrow>
           (\<forall>p'. m_outports_dirn2idx ru d' = Some p' \<longrightarrow>
              port_ok ru p' \<and> idle_adaptive_vcs ru p' = [])"
    using Cons.prems(1) by simp
  show ?case
  proof (cases "d' = d")
    case True
    from score_below_INT_MAX [OF assms(2,3,4), of d "rnd k"] obtain sc where
      sc: "getDirectionCongestionScore ru p d (rnd k) = Inr sc" "sc < INT_MAX" by blast
    have chk: "checkAdaptiveVCAvailability ru p = Inr True"
      using assms(2,3) by (rule check_true)
    from adaptive_loop_keep [OF assms(1-4) others, of rnd sc "Suc k"]
    show ?thesis using True assms(1) chk sc by simp
  next
    case False
    with Cons.prems(2) have "d \<in> set ds" by simp
    with Cons.IH others have rest:
      "\<exists>s'. adaptive_loop ru rnd ds (INT_MAX, u, False) k = Inr (s', d, True)" by simp
    show ?thesis
    proof (cases "m_outports_dirn2idx ru d'")
      case None
      then show ?thesis using rest by simp
    next
      case (Some p')
      with Cons.prems(1) False have "checkAdaptiveVCAvailability ru p' = Inr False"
        by (intro check_false) simp_all
      with Some show ?thesis using rest by simp
    qed
  qed
qed

lemma upto_0_1: "[0..1::int] = [0, 1]" "[1..1::int] = [1]" "[1..0::int] = []" "[0..0::int] = [0]"
  by (simp_all add: upto.simps)

lemma adaptive_unit_fields:
  "m_outports_dirn2idx adaptive_unit ''East'' = Some 1"
  "m_outports_dirn2idx adaptive_unit ''North'' = Some 2"
  "get_num_vcs (m_router adaptive_unit) = 4"
  "getOutputUnit (m_router adaptive_unit) 1 = Inr \<lparr>getVcsPerVnet = 2, is_vc_idle = (\<lambda>vc. False)\<rparr>"
  "getOutputUnit (m_router adaptive_unit) 2 = Inr \<lparr>getVcsPerVnet = 2, is_vc_idle = (\<lambda>vc. vc = 3)\<rparr>"
  by (simp_all add: adaptive_unit_def with_algorithm_def example_unit_def example_router_def
        getOutputUnit_def vec_index_def)


lemma adaptive_vc_ids_example:
  "adaptive_vc_ids adaptive_unit \<lparr>getVcsPerVnet = 2, is_vc_idle = f\<rparr> = [1, 3]"
  by (simp add: adaptive_vc_ids_def adaptive_unit_fields sdiv_nonneg upto_0_1)

lemma torus_distances_example:
  assumes "getTorusX (m_router ru) = 4" "getTorusY (m_router ru) = 4"
    "getTorusZ (m_router ru) = 1" "get_id (m_router ru) = 0" "dest_router route = 10"
  shows "torus_distances ru route = Inr ((2, True), (2, True), (0, True))"
  using torus_distances_coords [of ru 4 4 1 0 0 0 route 0 2 2] assms
  by (simp add: axis_distance_def axis_forward_def forward_dist_def backward_dist_def
        INT_MAX_def)

lemma adaptive_unit_torus:
  "getTorusX (m_router adaptive_unit) = 4" "getTorusY (m_router adaptive_unit) = 4"
  "getTorusZ (m_router adaptive_unit) = 1" "get_id (m_router adaptive_unit) = 0"
  by (simp_all add: adaptive_unit_def with_algorithm_def example_unit_def example_router_def)

lemma adaptive_unit_distances:
  "torus_distances adaptive_unit \<lparr>vnet = 0, net_dest = {5}, dest_router = 10\<rparr>
     = Inr ((2, True), (2, True), (0, True))"
  by (rule torus_distances_example [OF adaptive_unit_torus]) simp

lemma adaptive_unit_candidates:
  "minimal_path_candidates adaptive_unit \<lparr>vnet = 0, net_dest = {5}, dest_router = 10\<rparr>
     = [''East'', ''North'']"
  by (simp add: minimal_path_candidates_def adaptive_unit_distances adaptive_candidates_def)


lemma adaptive_unit_dor:
  "outportComputeTorus3D adaptive_unit \<lparr>vnet = 0, net_dest = {5}, dest_router = 10\<rparr>
     0 ''Local'' = Inr 1"
  by (simp add: outportComputeTorus3D_def adaptive_unit_distances adaptive_unit_fields)

lemma busy_unit_fields:
  "m_outports_dirn2idx busy_unit ''East'' = Some 1"
  "m_outports_dirn2idx busy_unit ''North'' = Some 2"
  "getOutputUnit (m_router busy_unit) 1 = Inr \<lparr>getVcsPerVnet = 2, is_vc_idle = (\<lambda>vc. False)\<rparr>"
  "getOutputUnit (m_router busy_unit) 2 = Inr \<lparr>getVcsPerVnet = 2, is_vc_idle = (\<lambda>vc. False)\<rparr>"
  by (simp_all add: busy_unit_def adaptive_unit_fields getOutputUnit_def vec_index_def)

lemma busy_unit_distances:
  "torus_distances busy_unit \<lparr>vnet = 0, net_dest = {5}, dest_router = 10\<rparr>
     = Inr ((2, True), (2, True), (0, True))"
  by (rule torus_distances_example) (simp_all add: busy_unit_def adaptive_unit_torus)

text \<open>
  Claim C3. When no minimal-path candidate direction of the query has an idle adaptive
  channel (each registered candidate has an output unit with channels, none of the adaptive
  ones idle), \<^verbatim>\<open>outportComputeTorus3DAdaptive\<close> gives exactly what
  \<^verbatim>\<open>outportComputeTorus3D\<close> gives for the same query, whatever the random source.
\<close>

theorem adaptive_escape_is_dor:
  assumes "\<forall>d\<in>set (minimal_path_candidates ru route).
             \<forall>p. m_outports_dirn2idx ru d = Some p \<longrightarrow>
               port_ok ru p \<and> idle_adaptive_vcs ru p = []"
  shows "outportComputeTorus3DAdaptive ru route inport inport_dirn rnd =
         outportComputeTorus3D ru route inport inport_dirn"
proof (cases "torus_distances ru route")
  case (Inl e)
  then show ?thesis
    by (simp add: outportComputeTorus3DAdaptive_def outportComputeTorus3D_def)
next
  case (Inr t)
  obtain x_dist x_forward y_dist y_forward z_dist z_forward where
    t: "t = ((x_dist, x_forward), (y_dist, y_forward), (z_dist, z_forward))"
    by (metis surj_pair)
  define cands where
    "cands = adaptive_candidates (x_dist, x_forward) (y_dist, y_forward) (z_dist, z_forward)"
  have mp: "minimal_path_candidates ru route = cands"
    by (simp add: minimal_path_candidates_def Inr t cands_def)
  have loop: "adaptive_loop ru rnd cands (INT_MAX, ''Unknown'', False) 0
                = Inr (INT_MAX, ''Unknown'', False)"
    using assms unfolding mp by (rule adaptive_loop_no_adaptive)
  have empty: "cands = [] \<longleftrightarrow> \<not> x_dist > 0 \<and> \<not> y_dist > 0 \<and> \<not> z_dist > 0"
    by (simp add: cands_def adaptive_candidates_def)
  show ?thesis
    unfolding outportComputeTorus3DAdaptive_def outportComputeTorus3D_def Inr t
    by (simp add: cands_def [symmetric] loop empty Let_def)
qed

theorem adaptive_escape_is_dor_witness:
  "minimal_path_candidates busy_unit \<lparr>vnet = 0, net_dest = {5}, dest_router = 10\<rparr>
     = [''East'', ''North'']
   \<and> outportComputeTorus3DAdaptive busy_unit
        \<lparr>vnet = 0, net_dest = {5}, dest_router = 10\<rparr> 0 ''Local'' (\<lambda>k. 2) = Inr 1
   \<and> outportComputeTorus3D busy_unit
        \<lparr>vnet = 0, net_dest = {5}, dest_router = 10\<rparr> 0 ''Local'' = Inr 1"
proof -
  let ?route = "\<lparr>vnet = 0, net_dest = {5}, dest_router = 10\<rparr>"
  have cands: "minimal_path_candidates busy_unit ?route = [''East'', ''North'']"
    by (simp add: minimal_path_candidates_def busy_unit_distances adaptive_candidates_def)
  have idle: "idle_adaptive_vcs busy_unit 1 = []" "idle_adaptive_vcs busy_unit 2 = []"
    by (simp_all add: idle_adaptive_vcs_def busy_unit_fields)
  have ok: "port_ok busy_unit 1" "port_ok busy_unit 2"
    by (simp_all add: port_ok_def busy_unit_fields)
  have h: "\<forall>d\<in>set (minimal_path_candidates busy_unit ?route).
             \<forall>p. m_outports_dirn2idx busy_unit d = Some p \<longrightarrow>
               port_ok busy_unit p \<and> idle_adaptive_vcs busy_unit p = []"
    by (simp add: cands busy_unit_fields idle ok)
  have dor: "outportComputeTorus3D busy_unit ?route 0 ''Local'' = Inr 1"
    by (simp add: outportComputeTorus3D_def busy_unit_distances busy_unit_fields)
  from adaptive_escape_is_dor [OF h, of 0 "''Local''" "\<lambda>k. 2"] dor cands
  show ?thesis by simp
qed

text \<open>
  Claim C7. When one minimal-path candidate direction has an idle adaptive channel and
  every other candidate has none, \<^verbatim>\<open>outportComputeTorus3DAdaptive\<close> returns the port of that
  candidate for every sequence of values of the random source. (The router has fewer than
  \<^verbatim>\<open>INT_MAX\<close> channels, so that a score is below the initial best score.)
\<close>

theorem adaptive_single_candidate:
  assumes "d \<in> set (minimal_path_candidates ru route)"
    and "m_outports_dirn2idx ru d = Some p" "port_ok ru p" "idle_adaptive_vcs ru p \<noteq> []"
    and "\<forall>d'\<in>set (minimal_path_candidates ru route). d' \<noteq> d \<longrightarrow>
           (\<forall>p'. m_outports_dirn2idx ru d' = Some p' \<longrightarrow>
              port_ok ru p' \<and> idle_adaptive_vcs ru p' = [])"
    and "get_num_vcs (m_router ru) < INT_MAX"
  shows "outportComputeTorus3DAdaptive ru route inport inport_dirn rnd = Inr p"
proof (cases "torus_distances ru route")
  case (Inl e)
  with assms(1) show ?thesis by (simp add: minimal_path_candidates_def)
next
  case (Inr t)
  obtain x_dist x_forward y_dist y_forward z_dist z_forward where
    t: "t = ((x_dist, x_forward), (y_dist, y_forward), (z_dist, z_forward))"
    by (metis surj_pair)
  define cands where
    "cands = adaptive_candidates (x_dist, x_forward) (y_dist, y_forward) (z_dist, z_forward)"
  have mp: "minimal_path_candidates ru route = cands"
    by (simp add: minimal_path_candidates_def Inr t cands_def)
  have ne: "cands \<noteq> []" using assms(1) unfolding mp by auto
  from adaptive_loop_find [OF assms(2,3,4,6) assms(5) [unfolded mp] assms(1) [unfolded mp],
      of rnd "''Unknown''" 0]
  obtain s' where loop:
    "adaptive_loop ru rnd cands (INT_MAX, ''Unknown'', False) 0 = Inr (s', d, True)" by blast
  show ?thesis
    unfolding outportComputeTorus3DAdaptive_def Inr t
    using ne assms(2) by (simp add: cands_def [symmetric] loop Let_def)
qed

theorem adaptive_single_candidate_witness:
  "outportComputeTorus3DAdaptive adaptive_unit
      \<lparr>vnet = 0, net_dest = {5}, dest_router = 10\<rparr> 0 ''Local'' (\<lambda>k. 2) = Inr 2
   \<and> outportComputeTorus3D adaptive_unit
      \<lparr>vnet = 0, net_dest = {5}, dest_router = 10\<rparr> 0 ''Local'' = Inr 1
   \<and> idle_adaptive_vcs adaptive_unit 2 = [3] \<and> idle_adaptive_vcs adaptive_unit 1 = []"
proof -
  let ?route = "\<lparr>vnet = 0, net_dest = {5}, dest_router = 10\<rparr>"
  have idle2: "idle_adaptive_vcs adaptive_unit 2 = [3]"
    and idle1: "idle_adaptive_vcs adaptive_unit 1 = []"
    by (simp_all add: idle_adaptive_vcs_def adaptive_unit_fields adaptive_vc_ids_example)
  have ok: "port_ok adaptive_unit 2" "port_ok adaptive_unit 1"
    by (simp_all add: port_ok_def adaptive_unit_fields)
  have h1: "''North'' \<in> set (minimal_path_candidates adaptive_unit ?route)"
    by (simp add: adaptive_unit_candidates)
  have h4: "idle_adaptive_vcs adaptive_unit 2 \<noteq> []" by (simp add: idle2)
  have h5: "\<forall>d'\<in>set (minimal_path_candidates adaptive_unit ?route). d' \<noteq> ''North'' \<longrightarrow>
           (\<forall>p'. m_outports_dirn2idx adaptive_unit d' = Some p' \<longrightarrow>
              port_ok adaptive_unit p' \<and> idle_adaptive_vcs adaptive_unit p' = [])"
    by (simp add: adaptive_unit_candidates adaptive_unit_fields ok idle1)
  have h6: "get_num_vcs (m_router adaptive_unit) < INT_MAX"
    by (simp add: adaptive_unit_fields INT_MAX_def)
  from adaptive_single_candidate [OF h1 adaptive_unit_fields(2) ok(1) h4 h5 h6,
      of 0 "''Local''" "\<lambda>k. 2"] adaptive_unit_dor idle1 idle2
  show ?thesis by simp
qed

text \<open>
  Claim C10, as amended. For an output port with an output unit whose number of channels per
  virtual network is not zero, \<^verbatim>\<open>checkAdaptiveVCAvailability\<close> is true exactly when one of
  the adaptive channels of some virtual network on that port is idle, and
  \<^verbatim>\<open>getDirectionCongestionScore\<close> is the number of those adaptive channels minus the number
  of idle ones when the port has an adaptive channel, and 100 when it has none, plus a
  perturbation in \<open>{0, 1, 2}\<close>. Neither reads the class of the routed packet, and the
  adaptive router gives the same result for queries that differ in the class only.
\<close>

theorem adaptive_queries_all_classes:
  assumes "getOutputUnit (m_router ru) outport_idx = Inr output_unit"
    and "getVcsPerVnet output_unit \<noteq> 0"
  shows "checkAdaptiveVCAvailability ru outport_idx =
           Inr (\<exists>vc\<in>set (adaptive_vc_ids ru output_unit). is_vc_idle output_unit vc)
       \<and> getDirectionCongestionScore ru outport_idx direction r =
           Inr ((if adaptive_vc_ids ru output_unit = [] then 100
                 else int (length (adaptive_vc_ids ru output_unit))
                      - int (length (filter (is_vc_idle output_unit)
                                       (adaptive_vc_ids ru output_unit))))
                + int (r mod 3))
       \<and> r mod 3 \<in> {0, 1, 2}
       \<and> outportComputeTorus3DAdaptive ru (route\<lparr>vnet := v\<rparr>) inport inport_dirn rnd =
           outportComputeTorus3DAdaptive ru route inport inport_dirn rnd"
proof -
  have "r mod 3 \<in> {0, 1, 2}" by auto
  moreover have "torus_distances ru (route\<lparr>vnet := v\<rparr>) = torus_distances ru route"
    by (simp add: torus_distances_def Let_def cong: if_cong)
  then have "outportComputeTorus3DAdaptive ru (route\<lparr>vnet := v\<rparr>) inport inport_dirn rnd =
           outportComputeTorus3DAdaptive ru route inport inport_dirn rnd"
    by (simp add: outportComputeTorus3DAdaptive_def)
  ultimately show ?thesis
    using checkAdaptiveVCAvailability_char [OF assms]
      getDirectionCongestionScore_char [OF assms, of direction r]
    by simp
qed

theorem adaptive_queries_all_classes_witness:
  "getOutputUnit (m_router adaptive_unit) 2 = Inr \<lparr>getVcsPerVnet = 2, is_vc_idle = (\<lambda>vc. vc = 3)\<rparr>
   \<and> checkAdaptiveVCAvailability adaptive_unit 2 = Inr True
   \<and> getDirectionCongestionScore adaptive_unit 2 ''North'' 5 = Inr 3"
  using adaptive_queries_all_classes [OF adaptive_unit_fields(5), of "''North''" 5]
  by (simp add: adaptive_vc_ids_example adaptive_unit_fields)

lemma single_vc_unit_fields:
  "getOutputUnit (m_router single_vc_unit) 1 = Inr single_vc_output"
  "get_num_vcs (m_router single_vc_unit) = 2"
  "getVcsPerVnet single_vc_output = 1"
  by (simp_all add: single_vc_unit_def single_vc_output_def getOutputUnit_def vec_index_def)

text \<open>
  With one channel per virtual network a port has no adaptive channel: the total and the
  idle count are both 0, and the score for the perturbation 0 is 100, not 0.
\<close>

theorem congestion_score_no_adaptive_counterexample:
  "getOutputUnit (m_router single_vc_unit) 1 = Inr single_vc_output
   \<and> adaptive_vc_ids single_vc_unit single_vc_output = []
   \<and> getDirectionCongestionScore single_vc_unit 1 ''East'' 0 = Inr 100"
  by (simp add: getDirectionCongestionScore_def adaptive_vc_ids_def single_vc_unit_fields
        upto_0_1)

end
